theory Spec2Isabelle
  imports Complex_Main
begin

section \<open>ToweringBot: template matching and the controller loop\<close>

text \<open>
  A shallow embedding of \<^verbatim>\<open>towering_bot.py\<close>. The file has two layers: \<^verbatim>\<open>Vision\<close>
  (template loading and single-best template matching) and \<^verbatim>\<open>Bot\<close> (a polling state
  machine that scans the screen, presses keys and clicks).

  Conventions of the embedding:
  \<^item> Python floats are the reals they denote. Timestamps, scores and thresholds are only
    subtracted and compared. Where the program multiplies and adds floats to compute
    pixel coordinates, the rounded operations of the doubles are parameters
    (\<open>float_ops\<close>).
  \<^item> Python integers are \<open>int\<close>; image dimensions are \<open>nat\<close>.
  \<^item> An exception is a value of type \<open>error\<close>, returned as \<open>Inl\<close>.
  \<^item> The OpenCV calls are parameters (\<open>cv_lib\<close>) that return a value or raise
    \<^verbatim>\<open>cv2.error\<close>; the mss calls (\<open>sct\<close>) are parameters taken to return normally.
\<close>

subsection \<open>Data\<close>

type_synonym key = string
type_synonym point = "int \<times> int"

text \<open>\<^verbatim>\<open>@dataclass class Match\<close>, with its derived \<^verbatim>\<open>center\<close> property. Python's \<^verbatim>\<open>//\<close> is
  floor division, as \<open>div\<close> on \<open>int\<close> is.\<close>

record Match =
  name :: key
  top_left :: point
  bottom_right :: point
  score :: real

definition center :: "Match \<Rightarrow> point" where
  "center m =
     (case top_left m of (x1, y1) \<Rightarrow>
      case bottom_right m of (x2, y2) \<Rightarrow>
        (x1 + (x2 - x1) div 2, y1 + (y2 - y1) div 2))"

text \<open>A numpy image: its shape (rows, cols) and its pixels.\<close>

record 'p image =
  rows :: nat
  cols :: nat
  px :: "nat \<Rightarrow> nat \<Rightarrow> 'p"

type_synonym bgr = "nat \<times> nat \<times> nat"
type_synonym gray_image = "nat image"
type_synonym bgr_image = "bgr image"

datatype error = FileNotFoundError string | KeyError key | IndexError | Cv2_error

text \<open>The OpenCV functions the program calls. \<^verbatim>\<open>cv.imread\<close> returns \<^verbatim>\<open>None\<close> for a file it
  cannot decode. \<^verbatim>\<open>cv.matchTemplate\<close> and \<^verbatim>\<open>cv.minMaxLoc\<close> return a value or raise
  \<^verbatim>\<open>cv2.error\<close> (\<open>Inl\<close>); \<^verbatim>\<open>cv.minMaxLoc\<close> returns \<^verbatim>\<open>(minVal, maxVal, minLoc, maxLoc)\<close>.\<close>

record cv_lib =
  imread :: "string \<Rightarrow> gray_image option"
  gray_of :: "bgr \<Rightarrow> nat"
  matchTemplate :: "gray_image \<Rightarrow> gray_image \<Rightarrow> error + real image"
  minMaxLoc :: "real image \<Rightarrow> error + real \<times> real \<times> point \<times> point"

text \<open>\<^verbatim>\<open>cv.cvtColor(frame, cv.COLOR_BGR2GRAY)\<close> raises \<^verbatim>\<open>cv2.error\<close> on an empty frame (no
  rows or no columns). On any other frame it maps every pixel and keeps the shape; the
  pixel function is a parameter.\<close>

definition cvtColor :: "cv_lib \<Rightarrow> bgr_image \<Rightarrow> error + gray_image" where
  "cvtColor lib frame =
     (if rows frame = 0 \<or> cols frame = 0 then Inl Cv2_error
      else Inr \<lparr>rows = rows frame, cols = cols frame,
                px = (\<lambda>y x. gray_of lib (px frame y x))\<rparr>)"

text \<open>The calls into OpenCV made by one \<^verbatim>\<open>find_best\<close>, in order.\<close>

datatype cv_call = CvtColor | MatchTemplate | MinMaxLoc

subsection \<open>Vision\<close>

text \<open>\<^verbatim>\<open>self.tmps\<close>: template name to \<^verbatim>\<open>(img, img.shape[::-1])\<close>, that is \<^verbatim>\<open>(img, (w, h))\<close>.\<close>

type_synonym tmps = "key \<rightharpoonup> (gray_image \<times> (nat \<times> nat))"

text \<open>\<^verbatim>\<open>Vision.__init__\<close>: the loop over \<^verbatim>\<open>templates.items()\<close>, in the dict's order. The
  dict is an association list of (name, path).\<close>

fun load_templates :: "cv_lib \<Rightarrow> (key \<times> string) list \<Rightarrow> tmps \<Rightarrow> error + tmps" where
  "load_templates lib [] t = Inr t"
| "load_templates lib ((k, p) # rest) t =
     (case imread lib p of
        None \<Rightarrow> Inl (FileNotFoundError p)
      | Some img \<Rightarrow> load_templates lib rest (t(k \<mapsto> (img, (cols img, rows img)))))"

definition Vision_init :: "cv_lib \<Rightarrow> (key \<times> string) list \<Rightarrow> error + tmps" where
  "Vision_init lib templates = load_templates lib templates Map.empty"

text \<open>The lookup \<^verbatim>\<open>self.tmps[key]\<close>: a name that was not loaded raises \<^verbatim>\<open>KeyError\<close>.\<close>

definition tmps_get :: "tmps \<Rightarrow> key \<Rightarrow> error + gray_image \<times> (nat \<times> nat)" where
  "tmps_get t k = (case t k of None \<Rightarrow> Inl (KeyError k) | Some x \<Rightarrow> Inr x)"

text \<open>\<^verbatim>\<open>Vision.find_best\<close>, statement by statement: the gray conversion (line 181), the
  lookup (182), the size guard (183 to 188), the search (189, 190) and the threshold gate
  (193 to 196). An exception of any of them ends the call. The result is paired with the
  OpenCV calls made up to there. The \<^verbatim>\<open>[Skip]\<close> and \<^verbatim>\<open>[Score]\<close> debug prints are left out.\<close>

definition find_best ::
  "cv_lib \<Rightarrow> tmps \<Rightarrow> bgr_image \<Rightarrow> key \<Rightarrow> real \<Rightarrow> cv_call list \<times> (error + Match option)" where
  "find_best lib t frame_bgr k thr =
     (case cvtColor lib frame_bgr of
        Inl e \<Rightarrow> ([CvtColor], Inl e)
      | Inr gray \<Rightarrow>
          (case tmps_get t k of
             Inl e \<Rightarrow> ([CvtColor], Inl e)
           | Inr (tmpl, (w, h)) \<Rightarrow>
               if rows gray < rows tmpl \<or> cols gray < cols tmpl then ([CvtColor], Inr None)
               else
                 (case matchTemplate lib gray tmpl of
                    Inl e \<Rightarrow> ([CvtColor, MatchTemplate], Inl e)
                  | Inr res \<Rightarrow>
                      (case minMaxLoc lib res of
                         Inl e \<Rightarrow> ([CvtColor, MatchTemplate, MinMaxLoc], Inl e)
                       | Inr (minV, maxV, minL, maxL) \<Rightarrow>
                           if maxV \<ge> thr then
                             (case maxL of (x, y) \<Rightarrow>
                                ([CvtColor, MatchTemplate, MinMaxLoc],
                                 Inr (Some \<lparr>name = k, top_left = (x, y),
                                            bottom_right = (x + int w, y + int h),
                                            score = maxV\<rparr>)))
                           else ([CvtColor, MatchTemplate, MinMaxLoc], Inr None)))))"

subsection \<open>Capture\<close>

text \<open>An mss bounding box (\<^verbatim>\<open>dict(left=, top=, width=, height=)\<close>) and the mss handle:
  its monitor list and its \<^verbatim>\<open>grab\<close>, already converted to a BGR array as \<^verbatim>\<open>_grab\<close> does.\<close>

record box =
  box_left :: int
  box_top :: int
  box_width :: int
  box_height :: int

record sct =
  monitors :: "box list"
  grab :: "box \<Rightarrow> bgr_image"

type_synonym rect = "int \<times> int \<times> int \<times> int"
type_synonym region = "real \<times> real \<times> real \<times> real"

text \<open>Python list indexing: a negative index counts from the end, an index out of range
  raises \<^verbatim>\<open>IndexError\<close>.\<close>

definition py_index :: "'a list \<Rightarrow> int \<Rightarrow> error + 'a" where
  "py_index xs i =
     (if 0 \<le> i \<and> i < int (length xs) then Inr (xs ! nat i)
      else if i < 0 \<and> - int (length xs) \<le> i then Inr (xs ! nat (int (length xs) + i))
      else Inl IndexError)"

text \<open>Python's \<^verbatim>\<open>int(x)\<close> on a float truncates toward zero.\<close>

definition py_int :: "real \<Rightarrow> int" where
  "py_int x = (if x \<ge> 0 then \<lfloor>x\<rfloor> else \<lceil>x\<rceil>)"

text \<open>\<^verbatim>\<open>_monitor_bbox\<close>; \<open>mi\<close> is \<^verbatim>\<open>MONITOR_INDEX\<close> (2 unless the environment overrides it).\<close>

definition monitor_bbox :: "int \<Rightarrow> sct \<Rightarrow> rect option \<Rightarrow> error + box" where
  "monitor_bbox mi s r =
     (case r of
        None \<Rightarrow>
          (case py_index (monitors s) mi of
             Inl e \<Rightarrow> Inl e
           | Inr m \<Rightarrow> Inr \<lparr>box_left = box_left m, box_top = box_top m,
                           box_width = box_width m, box_height = box_height m\<rparr>)
      | Some (L, T, R, B) \<Rightarrow>
          Inr \<lparr>box_left = L, box_top = T, box_width = R - L, box_height = B - T\<rparr>)"

text \<open>The translation both scans apply to a match found in the frame grabbed at \<open>b\<close>.\<close>

definition translate :: "box \<Rightarrow> Match \<Rightarrow> Match" where
  "translate b m =
     \<lparr>name = name m,
      top_left = (fst (top_left m) + box_left b, snd (top_left m) + box_top b),
      bottom_right = (fst (bottom_right m) + box_left b, snd (bottom_right m) + box_top b),
      score = score m\<rparr>"

text \<open>\<^verbatim>\<open>Bot._scan_full\<close>.\<close>

definition scan_full ::
  "cv_lib \<Rightarrow> tmps \<Rightarrow> int \<Rightarrow> sct \<Rightarrow> rect option \<Rightarrow> key \<Rightarrow> real \<Rightarrow> error + Match option" where
  "scan_full lib t mi s r k thr =
     (case monitor_bbox mi s r of
        Inl e \<Rightarrow> Inl e
      | Inr b \<Rightarrow>
          (case snd (find_best lib t (grab s b) k thr) of
             Inl e \<Rightarrow> Inl e
           | Inr None \<Rightarrow> Inr None
           | Inr (Some m) \<Rightarrow> Inr (Some (translate b m))))"

text \<open>The float arithmetic of \<^verbatim>\<open>_scan_region\<close>. In \<^verbatim>\<open>L + rx*W\<close> the integers are converted
  to floats and the product and the sum are each rounded to a double; \<open>fl_mul\<close> and
  \<open>fl_add\<close> are these rounded operations, on the reals the doubles denote.\<close>

record float_ops =
  fl_add :: "real \<Rightarrow> real \<Rightarrow> real"
  fl_mul :: "real \<Rightarrow> real \<Rightarrow> real"

text \<open>\<^verbatim>\<open>Bot._scan_region\<close>: the box of the fractional region (line 281), then as
  \<^verbatim>\<open>_scan_full\<close>.\<close>

definition region_box :: "float_ops \<Rightarrow> box \<Rightarrow> region \<Rightarrow> box" where
  "region_box fl full rp =
     (case rp of (rx, ry, rw, rh) \<Rightarrow>
        \<lparr>box_left = py_int (fl_add fl (real_of_int (box_left full))
                      (fl_mul fl rx (real_of_int (box_width full)))),
         box_top = py_int (fl_add fl (real_of_int (box_top full))
                     (fl_mul fl ry (real_of_int (box_height full)))),
         box_width = py_int (fl_mul fl rw (real_of_int (box_width full))),
         box_height = py_int (fl_mul fl rh (real_of_int (box_height full)))\<rparr>)"

definition scan_region ::
  "float_ops \<Rightarrow> cv_lib \<Rightarrow> tmps \<Rightarrow> int \<Rightarrow> sct \<Rightarrow> rect option \<Rightarrow> key \<Rightarrow> region \<Rightarrow> real
     \<Rightarrow> error + Match option" where
  "scan_region fl lib t mi s r k rp thr =
     (case monitor_bbox mi s r of
        Inl e \<Rightarrow> Inl e
      | Inr full \<Rightarrow>
          (let b = region_box fl full rp in
           case snd (find_best lib t (grab s b) k thr) of
             Inl e \<Rightarrow> Inl e
           | Inr None \<Rightarrow> Inr None
           | Inr (Some m) \<Rightarrow> Inr (Some (translate b m))))"

subsection \<open>Configuration\<close>

definition MATCHING_REGIONS :: "region list" where
  "MATCHING_REGIONS = [(0.50, 0.62, 0.40, 0.08), (0.56, 0.86, 0.36, 0.10)]"

definition CAPTAIN_DECLINE_GRACE :: real where "CAPTAIN_DECLINE_GRACE = 3.0"
definition CONFIRM_MONITOR_DURATION :: real where "CONFIRM_MONITOR_DURATION = 15.0"
definition CONFIRM_GONE_MARGIN :: real where "CONFIRM_GONE_MARGIN = 1.0"
definition POST_LEAVE_WINDOW :: real where "POST_LEAVE_WINDOW = 8.0"
definition SPAM_FAILSAFE_SECS :: real where "SPAM_FAILSAFE_SECS = 16 * 60"
definition FAILSAFE_RETRY_SECS :: real where "FAILSAFE_RETRY_SECS = 2.0"
definition MATCH_RETRY_COOLDOWN :: real where "MATCH_RETRY_COOLDOWN = 3.0"
definition CLICK_DELAY :: real where "CLICK_DELAY = 0.06"

definition TEMPLATES :: "(key \<times> string) list" where
  "TEMPLATES =
     [(''F_TOWERING'', ''assets/f_towering.png''),
      (''BTN_TOWERING_HARD'', ''assets/btn_towering_hard.png''),
      (''BTN_MATCH'', ''assets/btn_match.png''),
      (''BTN_DECLINE_CPT'', ''assets/btn_decline_cpt.png''),
      (''LBL_MATCHING'', ''assets/lbl_matching.png''),
      (''BTN_CONFIRM_MATCH'', ''assets/btn_confirm_match.png''),
      (''LBL_VICTORY'', ''assets/lbl_victory.png''),
      (''BTN_LEAVE_DUNGEON'', ''assets/btn_leave_dungeon.png''),
      (''HUD_DUNGEON'', ''assets/hud_dungeon.png''),
      (''BTN_LEAVE_ICON'', ''assets/btn_leave_icon.png''),
      (''BTN_CONFIRM_PARTY'', ''assets/btn_confirm_party.png'')]"

subsection \<open>The controller state\<close>

text \<open>\<^verbatim>\<open>self.state\<close> holds one of ten string constants; they are an enumeration.\<close>

datatype state =
    WAIT_F | WAIT_HARD | WAIT_MATCH | BECOME_CAPTAIN | CHECK_MATCHING_UNTIL_CONFIRM
  | CONFIRM_MONITOR | LINKCLICK_SPAM | WAIT_VICTORY_LEAVE | POST_LEAVE_CHECK | LEAVE_PARTY

text \<open>The attributes of \<^verbatim>\<open>Bot\<close>, in the order \<^verbatim>\<open>__init__\<close> assigns them.\<close>

record bot =
  running :: bool
  exit_flag :: bool
  vision :: tmps
  window_rect :: "rect option"
  state :: state
  hard_clicked :: bool
  match_clicked :: bool
  matching_seen :: bool
  confirm_monitor_start :: real
  last_confirm_seen :: real
  captain_wait_start :: real
  match_check_start :: real
  post_leave_start :: real
  after_leave_cycle :: bool
  dungeon_timer_start :: real
  hud_timer_armed :: bool
  failsafe_last_try_ts :: real
  leave_enter_ts :: real
  last_match_retry_ts :: real
  leave_probe_start_ts :: real
  leave_probe_done :: bool

text \<open>\<^verbatim>\<open>Bot.__init__\<close>; \<open>wr\<close> is what \<^verbatim>\<open>_win_rect_for_title\<close> found (or \<^verbatim>\<open>None\<close>). The exception
  of \<^verbatim>\<open>Vision(TEMPLATES)\<close> propagates.\<close>

definition Bot_init :: "cv_lib \<Rightarrow> rect option \<Rightarrow> error + bot" where
  "Bot_init lib wr =
     (case Vision_init lib TEMPLATES of
        Inl e \<Rightarrow> Inl e
      | Inr v \<Rightarrow>
          Inr \<lparr>running = False, exit_flag = False, vision = v, window_rect = wr,
               state = WAIT_F, hard_clicked = False, match_clicked = False,
               matching_seen = False, confirm_monitor_start = 0.0, last_confirm_seen = 0.0,
               captain_wait_start = 0.0, match_check_start = 0.0,
               post_leave_start = 0.0, after_leave_cycle = False,
               dungeon_timer_start = 0.0, hud_timer_armed = False, failsafe_last_try_ts = 0.0,
               leave_enter_ts = 0.0, last_match_retry_ts = 0.0,
               leave_probe_start_ts = 0.0, leave_probe_done = False\<rparr>)"

text \<open>\<^verbatim>\<open>Bot._full_reset\<close>, assignment by assignment.\<close>

definition full_reset :: "bot \<Rightarrow> bot" where
  "full_reset b =
     b\<lparr>hard_clicked := False,
       match_clicked := False,
       matching_seen := False,
       confirm_monitor_start := 0.0,
       last_confirm_seen := 0.0,
       captain_wait_start := 0.0,
       match_check_start := 0.0,
       after_leave_cycle := False,
       dungeon_timer_start := 0.0,
       hud_timer_armed := False,
       failsafe_last_try_ts := 0.0,
       leave_enter_ts := 0.0,
       last_match_retry_ts := 0.0,
       leave_probe_start_ts := 0.0,
       leave_probe_done := False,
       state := WAIT_F\<rparr>"

subsection \<open>One poll: what the loop reads and what it does\<close>

text \<open>
  Within one iteration of \<^verbatim>\<open>Bot.loop\<close> every scan grabs the screen anew and every
  \<^verbatim>\<open>time.time()\<close> reads the clock anew. The iteration is therefore a function of the
  controller state and of what these calls return. They are addressed by the source line
  of the call:
  \<^item> \<open>seen p l\<close>: the result of the \<^verbatim>\<open>_scan_full\<close> call at line \<open>l\<close>;
  \<^item> \<open>seen_region p l i\<close>: the result of the \<^verbatim>\<open>_scan_region\<close> call at line \<open>l\<close> for the
    \<open>i\<close>-th entry of \<^verbatim>\<open>MATCHING_REGIONS\<close>;
  \<^item> \<open>seen_probe p i\<close>: the result of the scan at line 332 for the \<open>i\<close>-th entry of
    \<^verbatim>\<open>probe_order\<close>;
  \<^item> \<open>clock p l\<close>: the value of \<^verbatim>\<open>time.time()\<close> at line \<open>l\<close>;
  \<^item> \<open>jitter p l\<close>: the two \<^verbatim>\<open>random.randint\<close> draws of the \<^verbatim>\<open>_click_at\<close> call at line \<open>l\<close>;
  \<^item> \<open>cps p\<close>: the \<^verbatim>\<open>random.uniform(CPS_MIN, CPS_MAX)\<close> draw at line 571.
  A scan is truthy exactly when it is not \<^verbatim>\<open>None\<close>.
\<close>

record poll =
  seen :: "nat \<Rightarrow> Match option"
  seen_region :: "nat \<Rightarrow> nat \<Rightarrow> Match option"
  seen_probe :: "nat \<Rightarrow> Match option"
  clock :: "nat \<Rightarrow> real"
  jitter :: "nat \<Rightarrow> int \<times> int"
  cps :: real

text \<open>What an iteration does that is visible outside the controller state: scans, input
  actions and sleeps, in order. Console prints are left out.\<close>

datatype event =
    Scan_full key
  | Scan_region key region
  | KeyDown string
  | KeyUp string
  | Press string
  | MoveTo int int
  | Click
  | MouseLeftClick
  | Sleep real

definition is_scan :: "event \<Rightarrow> bool" where
  "is_scan e = (case e of Scan_full k \<Rightarrow> True | Scan_region k r \<Rightarrow> True | _ \<Rightarrow> False)"

definition is_input :: "event \<Rightarrow> bool" where
  "is_input e =
     (case e of
        KeyDown k \<Rightarrow> True | KeyUp k \<Rightarrow> True | Press k \<Rightarrow> True
      | MoveTo x y \<Rightarrow> True | Click \<Rightarrow> True | MouseLeftClick \<Rightarrow> True
      | _ \<Rightarrow> False)"

text \<open>The input helpers \<^verbatim>\<open>_press_f\<close>, \<^verbatim>\<open>_press_h_once\<close> and \<^verbatim>\<open>_click_at\<close> (the move
  duration is not recorded).\<close>

definition press_f :: "event list" where
  "press_f = [KeyDown ''f'', Sleep CLICK_DELAY, KeyUp ''f'']"

definition press_h_once :: "event list" where
  "press_h_once = [KeyDown ''h'', Sleep 2, KeyUp ''h'']"

definition click_at :: "poll \<Rightarrow> nat \<Rightarrow> point \<Rightarrow> event list" where
  "click_at p l pt =
     [MoveTo (fst pt + fst (jitter p l)) (snd pt + snd (jitter p l)), Click]"

text \<open>\<^verbatim>\<open>_maybe_arm_hud_timer\<close>.\<close>

definition maybe_arm_hud_timer :: "poll \<Rightarrow> bot \<Rightarrow> bot \<times> event list" where
  "maybe_arm_hud_timer p b =
     (if \<not> hud_timer_armed b then
        (case seen p 296 of
           Some hud \<Rightarrow>
             (b\<lparr>dungeon_timer_start := clock p 298, hud_timer_armed := True\<rparr>,
              [Scan_full ''HUD_DUNGEON''] @ press_h_once)
         | None \<Rightarrow> (b, [Scan_full ''HUD_DUNGEON'']))
      else (b, []))"

text \<open>\<^verbatim>\<open>_probe_any_asset\<close>: the first hit ends the loop.\<close>

definition probe_order :: "key list" where
  "probe_order =
     [''F_TOWERING'', ''BTN_TOWERING_HARD'', ''BTN_MATCH'',
      ''LBL_MATCHING'', ''BTN_CONFIRM_MATCH'',
      ''HUD_DUNGEON'', ''BTN_LEAVE_DUNGEON'',
      ''BTN_LEAVE_ICON'', ''BTN_CONFIRM_PARTY'']"

fun probe_from :: "poll \<Rightarrow> nat \<Rightarrow> key list \<Rightarrow> bool \<times> event list" where
  "probe_from p i [] = (False, [])"
| "probe_from p i (k # ks) =
     (case seen_probe p i of
        Some m \<Rightarrow> (True, [Scan_full k])
      | None \<Rightarrow> (case probe_from p (Suc i) ks of (r, ev) \<Rightarrow> (r, Scan_full k # ev)))"

definition probe_any_asset :: "poll \<Rightarrow> bool \<times> event list" where
  "probe_any_asset p = probe_from p 0 probe_order"

text \<open>The two loops over \<^verbatim>\<open>MATCHING_REGIONS\<close> (lines 435 and 447): scan each region for
  \<^verbatim>\<open>LBL_MATCHING\<close>, stop at the first hit.\<close>

fun scan_regions :: "poll \<Rightarrow> nat \<Rightarrow> nat \<Rightarrow> region list \<Rightarrow> bool \<times> event list" where
  "scan_regions p l i [] = (False, [])"
| "scan_regions p l i (rp # rps) =
     (case seen_region p l i of
        Some m \<Rightarrow> (True, [Scan_region ''LBL_MATCHING'' rp])
      | None \<Rightarrow>
          (case scan_regions p l (Suc i) rps of
             (r, ev) \<Rightarrow> (r, Scan_region ''LBL_MATCHING'' rp # ev)))"

subsection \<open>The branches of the loop body\<close>

text \<open>Each branch returns the new controller state and the events of the iteration. A
  branch that ends in \<^verbatim>\<open>continue\<close> returns at once.

  The F-guard (lines 350 to 362). The first component tells whether the guard fired, that is
  whether it reset the controller and ended the iteration.\<close>

definition f_guard :: "poll \<Rightarrow> bot \<Rightarrow> bool \<times> bot \<times> event list" where
  "f_guard p b =
     (let in_dungeon = seen p 352 in
      if state b \<noteq> LEAVE_PARTY \<and> in_dungeon = None then
        (let fg = seen p 355 in
         if fg \<noteq> None \<and> state b \<noteq> WAIT_F then
           (True, full_reset b,
            [Scan_full ''HUD_DUNGEON'', Scan_full ''F_TOWERING'', Sleep 0.15])
         else (False, b, [Scan_full ''HUD_DUNGEON'', Scan_full ''F_TOWERING'']))
      else (False, b, [Scan_full ''HUD_DUNGEON'']))"

text \<open>1) \<^verbatim>\<open>WAIT_F\<close> (lines 365 to 373). Without a detection the branch falls through to the
  idle throttle at line 682.\<close>

definition loop_WAIT_F :: "poll \<Rightarrow> bot \<Rightarrow> bot \<times> event list" where
  "loop_WAIT_F p b =
     (case seen p 366 of
        Some f \<Rightarrow> (b\<lparr>state := WAIT_HARD\<rparr>, [Scan_full ''F_TOWERING''] @ press_f @ [Sleep 1])
      | None \<Rightarrow> (b, [Scan_full ''F_TOWERING'', Sleep 0.05]))"

text \<open>2) \<^verbatim>\<open>WAIT_HARD\<close> (lines 376 to 386).\<close>

definition loop_WAIT_HARD :: "poll \<Rightarrow> bot \<Rightarrow> bot \<times> event list" where
  "loop_WAIT_HARD p b =
     (if \<not> hard_clicked b then
        (case seen p 378 of
           Some h \<Rightarrow>
             (b\<lparr>hard_clicked := True, state := WAIT_MATCH\<rparr>,
              [Scan_full ''BTN_TOWERING_HARD''] @ click_at p 382 (center h) @ [Sleep 1])
         | None \<Rightarrow> (b\<lparr>state := WAIT_MATCH\<rparr>, [Scan_full ''BTN_TOWERING_HARD'']))
      else (b\<lparr>state := WAIT_MATCH\<rparr>, []))"

text \<open>3) \<^verbatim>\<open>WAIT_MATCH\<close> (lines 389 to 402).\<close>

definition loop_WAIT_MATCH :: "poll \<Rightarrow> bot \<Rightarrow> bot \<times> event list" where
  "loop_WAIT_MATCH p b =
     (if \<not> match_clicked b then
        (case seen p 391 of
           Some m \<Rightarrow>
             (b\<lparr>match_clicked := True, captain_wait_start := clock p 398,
                state := BECOME_CAPTAIN\<rparr>,
              [Scan_full ''BTN_MATCH''] @ click_at p 395 (center m) @ [Sleep 1])
         | None \<Rightarrow> (b, [Scan_full ''BTN_MATCH'', Sleep 0.05]))
      else (b, [Sleep 0.05]))"

text \<open>4) \<^verbatim>\<open>BECOME_CAPTAIN\<close> (lines 405 to 427).\<close>

definition loop_BECOME_CAPTAIN :: "poll \<Rightarrow> bot \<Rightarrow> bot \<times> event list" where
  "loop_BECOME_CAPTAIN p b =
     (case seen p 406 of
        Some d \<Rightarrow>
          (b\<lparr>match_check_start := clock p 412, state := CHECK_MATCHING_UNTIL_CONFIRM\<rparr>,
           [Scan_full ''BTN_DECLINE_CPT''] @ click_at p 410 (center d) @ [Sleep 0.6])
      | None \<Rightarrow>
          if clock p 416 - captain_wait_start b \<ge> CAPTAIN_DECLINE_GRACE then
            (b\<lparr>leave_enter_ts := clock p 422, state := LEAVE_PARTY\<rparr>,
             [Scan_full ''BTN_DECLINE_CPT'', Press ''esc'', Sleep 0.2, Press ''i''])
          else (b, [Scan_full ''BTN_DECLINE_CPT'', Sleep 0.1]))"

text \<open>5) \<^verbatim>\<open>CHECK_MATCHING_UNTIL_CONFIRM\<close> (lines 430 to 490), in its three parts: the latch
  (433 to 443), the retry of \<^verbatim>\<open>Match\<close> (445 to 466), and the confirm hunt with the
  timeout (468 to 490). \<open>now\<close> is the clock read at line 431.\<close>

definition matching_latch :: "poll \<Rightarrow> bot \<Rightarrow> bot \<times> event list" where
  "matching_latch p b =
     (if \<not> matching_seen b then
        (case scan_regions p 436 0 MATCHING_REGIONS of
           (found, ev) \<Rightarrow> (if found then b\<lparr>matching_seen := True\<rparr> else b, ev))
      else (b, []))"

definition matching_tail :: "poll \<Rightarrow> real \<Rightarrow> bot \<Rightarrow> bot \<times> event list" where
  "matching_tail p now b =
     (case seen p 468 of
        Some cfm \<Rightarrow>
          (b\<lparr>confirm_monitor_start := clock p 474, last_confirm_seen := clock p 475,
             state := CONFIRM_MONITOR\<rparr>,
           [Scan_full ''BTN_CONFIRM_MATCH''] @ click_at p 472 (center cfm) @ [Sleep 0.8])
      | None \<Rightarrow>
          if \<not> matching_seen b \<and> now - match_check_start b > 5.0 then
            (b\<lparr>leave_enter_ts := clock p 485, state := LEAVE_PARTY\<rparr>,
             [Scan_full ''BTN_CONFIRM_MATCH'', Press ''esc'', Sleep 0.2, Press ''i''])
          else (b, [Scan_full ''BTN_CONFIRM_MATCH'', Sleep 0.1]))"

definition loop_CHECK_MATCHING_UNTIL_CONFIRM :: "poll \<Rightarrow> bot \<Rightarrow> bot \<times> event list" where
  "loop_CHECK_MATCHING_UNTIL_CONFIRM p b =
     (let now = clock p 431 in
      case matching_latch p b of (b1, ev1) \<Rightarrow>
        if now - last_match_retry_ts b1 \<ge> MATCH_RETRY_COOLDOWN then
          (case scan_regions p 448 0 MATCHING_REGIONS of (still_matching, ev2) \<Rightarrow>
             if \<not> still_matching then
               (case seen p 456 of
                  Some mbtn \<Rightarrow>
                    (b1\<lparr>captain_wait_start := clock p 461, last_match_retry_ts := now,
                        state := BECOME_CAPTAIN\<rparr>,
                     ev1 @ ev2 @ [Scan_full ''BTN_MATCH''] @ click_at p 459 (center mbtn)
                       @ [Sleep 0.6])
                | None \<Rightarrow>
                    (case matching_tail p now (b1\<lparr>last_match_retry_ts := now\<rparr>) of
                       (b2, ev3) \<Rightarrow> (b2, ev1 @ ev2 @ [Scan_full ''BTN_MATCH''] @ ev3)))
             else (case matching_tail p now b1 of (b2, ev3) \<Rightarrow> (b2, ev1 @ ev2 @ ev3)))
        else (case matching_tail p now b1 of (b2, ev3) \<Rightarrow> (b2, ev1 @ ev3)))"

text \<open>6) \<^verbatim>\<open>CONFIRM_MONITOR\<close> (lines 493 to 522), in its parts: the re-click of a confirm
  that is seen (497 to 503), then the victory check and the window (505 to 522). \<open>now\<close> is
  read at line 496, after \<^verbatim>\<open>_maybe_arm_hud_timer\<close>.\<close>

definition monitor_reclick :: "poll \<Rightarrow> real \<Rightarrow> bot \<Rightarrow> bot \<times> event list" where
  "monitor_reclick p now b =
     (case seen p 497 of
        Some cfm \<Rightarrow>
          (b\<lparr>last_confirm_seen := now\<rparr>,
           [Scan_full ''BTN_CONFIRM_MATCH''] @ click_at p 502 (center cfm) @ [Sleep 0.3])
      | None \<Rightarrow> (b, [Scan_full ''BTN_CONFIRM_MATCH'']))"

definition monitor_tail :: "poll \<Rightarrow> real \<Rightarrow> bot \<Rightarrow> bot \<times> event list" where
  "monitor_tail p now b =
     (case seen p 505 of
        Some vic \<Rightarrow> (b\<lparr>state := WAIT_VICTORY_LEAVE\<rparr>, [Scan_full ''LBL_VICTORY''])
      | None \<Rightarrow>
          if now - confirm_monitor_start b \<ge> CONFIRM_MONITOR_DURATION then
            (if now - last_confirm_seen b > CONFIRM_GONE_MARGIN then
               (b\<lparr>state := LINKCLICK_SPAM\<rparr>, [Scan_full ''LBL_VICTORY''])
             else (b\<lparr>confirm_monitor_start := now\<rparr>, [Scan_full ''LBL_VICTORY'', Sleep 0.12]))
          else (b, [Scan_full ''LBL_VICTORY'', Sleep 0.12]))"

definition loop_CONFIRM_MONITOR :: "poll \<Rightarrow> bot \<Rightarrow> bot \<times> event list" where
  "loop_CONFIRM_MONITOR p b =
     (case maybe_arm_hud_timer p b of (b1, ev1) \<Rightarrow>
        (let now = clock p 496 in
         case monitor_reclick p now b1 of (b2, ev2) \<Rightarrow>
           (case monitor_tail p now b2 of (b3, ev3) \<Rightarrow> (b3, ev1 @ ev2 @ ev3))))"

text \<open>7) \<^verbatim>\<open>LINKCLICK_SPAM\<close> (lines 525 to 574): the HUD-armed failsafe (529 to 549), then
  the confirm recheck, the victory check and one left click (551 to 574). \<open>now\<close> is read at
  line 526, before \<^verbatim>\<open>_maybe_arm_hud_timer\<close>.\<close>

definition spam_tail :: "poll \<Rightarrow> bot \<Rightarrow> bot \<times> event list" where
  "spam_tail p b =
     (case seen p 551 of
        Some cfm \<Rightarrow>
          (b\<lparr>confirm_monitor_start := clock p 558, last_confirm_seen := clock p 559,
             matching_seen := True, state := CONFIRM_MONITOR\<rparr>,
           [Scan_full ''BTN_CONFIRM_MATCH''] @ click_at p 556 (center cfm) @ [Sleep 0.3])
      | None \<Rightarrow>
          (case seen p 564 of
             Some vic \<Rightarrow>
               (b\<lparr>state := WAIT_VICTORY_LEAVE\<rparr>,
                [Scan_full ''BTN_CONFIRM_MATCH'', Scan_full ''LBL_VICTORY''])
           | None \<Rightarrow>
               (b, [Scan_full ''BTN_CONFIRM_MATCH'', Scan_full ''LBL_VICTORY'',
                    MouseLeftClick, Sleep (1.0 / cps p)])))"

definition loop_LINKCLICK_SPAM :: "poll \<Rightarrow> bot \<Rightarrow> bot \<times> event list" where
  "loop_LINKCLICK_SPAM p b =
     (let now = clock p 526 in
      case maybe_arm_hud_timer p b of (b1, ev1) \<Rightarrow>
        if hud_timer_armed b1 \<and> dungeon_timer_start b1 > 0
           \<and> now - dungeon_timer_start b1 \<ge> SPAM_FAILSAFE_SECS
           \<and> now - failsafe_last_try_ts b1 \<ge> FAILSAFE_RETRY_SECS then
          (case seen p 536 of
             Some cf \<Rightarrow>
               ((full_reset (b1\<lparr>post_leave_start := clock p 543, after_leave_cycle := True\<rparr>))
                  \<lparr>post_leave_start := clock p 546, state := POST_LEAVE_CHECK\<rparr>,
                ev1 @ [Press ''p'', Sleep 0.3, Scan_full ''BTN_CONFIRM_PARTY'']
                  @ click_at p 541 (center cf) @ [Sleep 0.6])
           | None \<Rightarrow>
               (case spam_tail p (b1\<lparr>failsafe_last_try_ts := now\<rparr>) of
                  (b2, ev2) \<Rightarrow>
                    (b2, ev1 @ [Press ''p'', Sleep 0.3, Scan_full ''BTN_CONFIRM_PARTY''] @ ev2)))
        else (case spam_tail p b1 of (b2, ev2) \<Rightarrow> (b2, ev1 @ ev2)))"

text \<open>8) \<^verbatim>\<open>WAIT_VICTORY_LEAVE\<close> (lines 577 to 589).\<close>

definition loop_WAIT_VICTORY_LEAVE :: "poll \<Rightarrow> bot \<Rightarrow> bot \<times> event list" where
  "loop_WAIT_VICTORY_LEAVE p b =
     (case seen p 578 of
        Some lv \<Rightarrow>
          (b\<lparr>post_leave_start := clock p 584, after_leave_cycle := True,
             state := POST_LEAVE_CHECK\<rparr>,
           [Scan_full ''BTN_LEAVE_DUNGEON''] @ click_at p 582 (center lv) @ [Sleep 1.0])
      | None \<Rightarrow> (b, [Scan_full ''BTN_LEAVE_DUNGEON'', Sleep 0.2]))"

text \<open>9) \<^verbatim>\<open>POST_LEAVE_CHECK\<close> (lines 592 to 621).\<close>

definition loop_POST_LEAVE_CHECK :: "poll \<Rightarrow> bot \<Rightarrow> bot \<times> event list" where
  "loop_POST_LEAVE_CHECK p b =
     (let now = clock p 593 in
      case seen p 594 of
        Some cfm \<Rightarrow>
          (b\<lparr>confirm_monitor_start := clock p 601, last_confirm_seen := clock p 602,
             matching_seen := True, state := CONFIRM_MONITOR\<rparr>,
           [Scan_full ''BTN_CONFIRM_MATCH''] @ click_at p 599 (center cfm) @ [Sleep 0.6])
      | None \<Rightarrow>
          (case seen p 607 of
             Some f \<Rightarrow>
               (full_reset b, [Scan_full ''BTN_CONFIRM_MATCH'', Scan_full ''F_TOWERING''])
           | None \<Rightarrow>
               if now - post_leave_start b > POST_LEAVE_WINDOW then
                 (full_reset b, [Scan_full ''BTN_CONFIRM_MATCH'', Scan_full ''F_TOWERING''])
               else
                 (b, [Scan_full ''BTN_CONFIRM_MATCH'', Scan_full ''F_TOWERING'',
                      Sleep 0.12])))"

text \<open>10) \<^verbatim>\<open>LEAVE_PARTY\<close> (lines 624 to 679). Python's \<^verbatim>\<open>and\<close> reads the clock at line 626
  only when \<^verbatim>\<open>leave_enter_ts\<close> is not zero, and the one at line 671 only when the probe has
  not run.\<close>

definition leave_after_5s :: "poll \<Rightarrow> bot \<Rightarrow> bot \<times> event list" where
  "leave_after_5s p b =
     (case seen p 660 of
        Some f \<Rightarrow> (full_reset b, [Press ''esc'', Sleep 0.2, Scan_full ''F_TOWERING''])
      | None \<Rightarrow>
          if leave_probe_start_ts b = 0.0 then
            (b\<lparr>leave_probe_start_ts := clock p 670\<rparr>,
             [Press ''esc'', Sleep 0.2, Scan_full ''F_TOWERING'', Sleep 0.15])
          else if \<not> leave_probe_done b \<and> clock p 671 - leave_probe_start_ts b \<ge> 0.0 then
            (b\<lparr>leave_probe_done := True\<rparr>,
             [Press ''esc'', Sleep 0.2, Scan_full ''F_TOWERING'']
               @ snd (probe_any_asset p) @ [Sleep 0.15])
          else (b, [Press ''esc'', Sleep 0.2, Scan_full ''F_TOWERING'', Sleep 0.15]))"

definition loop_LEAVE_PARTY :: "poll \<Rightarrow> bot \<Rightarrow> bot \<times> event list" where
  "loop_LEAVE_PARTY p b =
     (if leave_enter_ts b \<noteq> 0 \<and> clock p 626 - leave_enter_ts b < 0.6 then (b, [Sleep 0.1])
      else
        (let now = clock p 630 in
         case seen p 633 of
           Some lp \<Rightarrow>
             (full_reset b,
              [Scan_full ''BTN_LEAVE_ICON''] @ click_at p 637 (center lp)
                @ [Sleep 0.6, Scan_full ''BTN_CONFIRM_PARTY'']
                @ (case seen p 640 of
                     Some cf \<Rightarrow> click_at p 644 (center cf) @ [Sleep 0.8]
                   | None \<Rightarrow> [])
                @ [Press ''esc'', Sleep 0.4])
         | None \<Rightarrow>
             if now - leave_enter_ts b \<ge> 5.0 then
               (case leave_after_5s p b of
                  (b1, ev) \<Rightarrow> (b1, Scan_full ''BTN_LEAVE_ICON'' # ev))
             else (b, [Scan_full ''BTN_LEAVE_ICON'', Sleep 0.15])))"

subsection \<open>The loop\<close>

text \<open>The \<^verbatim>\<open>if\<close>/\<^verbatim>\<open>elif\<close> chain on \<^verbatim>\<open>self.state\<close>.\<close>

definition dispatch :: "poll \<Rightarrow> bot \<Rightarrow> bot \<times> event list" where
  "dispatch p b =
     (case state b of
        WAIT_F \<Rightarrow> loop_WAIT_F p b
      | WAIT_HARD \<Rightarrow> loop_WAIT_HARD p b
      | WAIT_MATCH \<Rightarrow> loop_WAIT_MATCH p b
      | BECOME_CAPTAIN \<Rightarrow> loop_BECOME_CAPTAIN p b
      | CHECK_MATCHING_UNTIL_CONFIRM \<Rightarrow> loop_CHECK_MATCHING_UNTIL_CONFIRM p b
      | CONFIRM_MONITOR \<Rightarrow> loop_CONFIRM_MONITOR p b
      | LINKCLICK_SPAM \<Rightarrow> loop_LINKCLICK_SPAM p b
      | WAIT_VICTORY_LEAVE \<Rightarrow> loop_WAIT_VICTORY_LEAVE p b
      | POST_LEAVE_CHECK \<Rightarrow> loop_POST_LEAVE_CHECK p b
      | LEAVE_PARTY \<Rightarrow> loop_LEAVE_PARTY p b)"

text \<open>One pass through the body of \<^verbatim>\<open>while not self.exit_flag\<close> (lines 346 to 682).\<close>

definition loop_iter :: "poll \<Rightarrow> bot \<Rightarrow> bot \<times> event list" where
  "loop_iter p b =
     (if \<not> running b then (b, [Sleep 0.05])
      else
        (case f_guard p b of
           (fired, b1, ev1) \<Rightarrow>
             if fired then (b1, ev1)
             else (case dispatch p b of (b2, ev2) \<Rightarrow> (b2, ev1 @ ev2))))"

text \<open>The hotkey listener of \<^verbatim>\<open>_run\<close>: F8 starts, F9 pauses, F10 asks the loop to exit; it
  writes the two flags and nothing else.\<close>

datatype hotkey = F8 | F9 | F10 | Other_key

definition on_press :: "hotkey \<Rightarrow> bot \<Rightarrow> bot" where
  "on_press k b =
     (case k of
        F8 \<Rightarrow> b\<lparr>running := True\<rparr>
      | F9 \<Rightarrow> b\<lparr>running := False\<rparr>
      | F10 \<Rightarrow> b\<lparr>exit_flag := True\<rparr>
      | Other_key \<Rightarrow> b)"

text \<open>\<^verbatim>\<open>Bot.loop\<close> over a finite schedule: each entry holds the hotkeys pressed since the last
  iteration and what the next iteration reads. The loop ends when \<^verbatim>\<open>exit_flag\<close> is set; a
  schedule that runs out is a prefix of a longer run.\<close>

fun loop :: "(hotkey list \<times> poll) list \<Rightarrow> bot \<Rightarrow> bot \<times> event list" where
  "loop [] b = (b, [])"
| "loop ((ks, p) # rest) b =
     (let b0 = foldl (\<lambda>b k. on_press k b) b ks in
      if exit_flag b0 then (b0, [])
      else
        (case loop_iter p b0 of (b1, ev1) \<Rightarrow>
         case loop rest b1 of (b2, ev2) \<Rightarrow> (b2, ev1 @ ev2)))"

text \<open>\<^verbatim>\<open>_run\<close>: construct the bot, then start the loop. When the constructor raises, no
  iteration runs.\<close>

definition run :: "cv_lib \<Rightarrow> rect option \<Rightarrow> (hotkey list \<times> poll) list \<Rightarrow> error + bot \<times> event list" where
  "run lib wr sched =
     (case Bot_init lib wr of
        Inl e \<Rightarrow> Inl e
      | Inr b \<Rightarrow> Inr (loop sched b))"

subsection \<open>Predicates on polls\<close>

text \<open>A poll in which no scan detects anything.\<close>

definition quiet :: "poll \<Rightarrow> bool" where
  "quiet p \<longleftrightarrow>
     (\<forall>l. seen p l = None) \<and> (\<forall>l i. seen_region p l i = None) \<and> (\<forall>i. seen_probe p i = None)"

text \<open>A poll in which the F prompt, the match confirm button, the victory label and the
  party confirm button are not detected, at the scans of the guard, of \<^verbatim>\<open>CONFIRM_MONITOR\<close>
  and of \<^verbatim>\<open>LINKCLICK_SPAM\<close>. The HUD may be detected or not.\<close>

definition calm :: "poll \<Rightarrow> bool" where
  "calm p \<longleftrightarrow>
     seen p 355 = None \<and> seen p 497 = None \<and> seen p 505 = None
     \<and> seen p 536 = None \<and> seen p 551 = None \<and> seen p 564 = None"

subsection \<open>Example inputs\<close>

text \<open>Concrete values on which the theorems below are instantiated: a library whose
  \<^verbatim>\<open>imread\<close> decodes every file (or none) and whose best match scores 0.9 at (7, 9), one
  loaded template of 30 by 20 pixels, a screen of 1920 by 1080, float operations that are
  exact (as the doubles' are on the halves and quarters of 1920 and 1080 used below), a
  poll that detects
  something at the listed source lines only and reads the clock as \<open>t\<close>, and a running
  controller in a given state with every auxiliary field at its initial value.\<close>

definition ex_img :: "nat \<Rightarrow> nat \<Rightarrow> gray_image" where
  "ex_img h w = \<lparr>rows = h, cols = w, px = (\<lambda>y x. 0)\<rparr>"

definition ex_frame :: "nat \<Rightarrow> nat \<Rightarrow> bgr_image" where
  "ex_frame h w = \<lparr>rows = h, cols = w, px = (\<lambda>y x. (0, 0, 0))\<rparr>"

definition ex_lib :: "bool \<Rightarrow> cv_lib" where
  "ex_lib ok =
     \<lparr>imread = (\<lambda>p. if ok then Some (ex_img 20 30) else None),
      gray_of = (\<lambda>c. fst c),
      matchTemplate =
        (\<lambda>g t. Inr \<lparr>rows = rows g - rows t + 1, cols = cols g - cols t + 1,
                      px = (\<lambda>y x. 0.9)\<rparr>),
      minMaxLoc = (\<lambda>r. Inr (0.9, 0.9, (0, 0), (7, 9)))\<rparr>"

definition ex_fl :: float_ops where
  "ex_fl = \<lparr>fl_add = (\<lambda>x y. x + y), fl_mul = (\<lambda>x y. x * y)\<rparr>"

definition ex_tmps :: tmps where
  "ex_tmps = [''LBL_MATCHING'' \<mapsto> (ex_img 20 30, (30, 20))]"

definition ex_sct :: sct where
  "ex_sct = \<lparr>monitors = [\<lparr>box_left = 0, box_top = 0, box_width = 1920, box_height = 1080\<rparr>],
             grab = (\<lambda>b. ex_frame (nat (box_height b)) (nat (box_width b)))\<rparr>"

definition ex_match :: Match where
  "ex_match = \<lparr>name = ''X'', top_left = (10, 10), bottom_right = (30, 20), score = 0.95\<rparr>"

definition ex_poll :: "nat list \<Rightarrow> real \<Rightarrow> poll" where
  "ex_poll ls t =
     \<lparr>seen = (\<lambda>l. if l \<in> set ls then Some ex_match else None),
      seen_region = (\<lambda>l i. None),
      seen_probe = (\<lambda>i. None),
      clock = (\<lambda>l. t),
      jitter = (\<lambda>l. (0, 0)),
      cps = 15\<rparr>"

definition ex_bot :: "state \<Rightarrow> bot" where
  "ex_bot s =
     \<lparr>running = True, exit_flag = False, vision = ex_tmps, window_rect = None,
      state = s, hard_clicked = False, match_clicked = False,
      matching_seen = False, confirm_monitor_start = 0.0, last_confirm_seen = 0.0,
      captain_wait_start = 0.0, match_check_start = 0.0,
      post_leave_start = 0.0, after_leave_cycle = False,
      dungeon_timer_start = 0.0, hud_timer_armed = False, failsafe_last_try_ts = 0.0,
      leave_enter_ts = 0.0, last_match_retry_ts = 0.0,
      leave_probe_start_ts = 0.0, leave_probe_done = False\<rparr>"

section \<open>Properties of Vision\<close>

subsection \<open>The size guard of \<open>find_best\<close>\<close>




subsection \<open>The threshold gate\<close>

text \<open>C5: for thresholds \<open>t1 < t2\<close>, a detection returned at \<open>t2\<close> is returned, the same,
  at \<open>t1\<close>, for the same library, templates, frame and name.\<close>

theorem find_best_threshold_monotone:
  assumes "t1 < t2"
    and "snd (find_best lib t frame k t2) = Inr (Some m)"
  shows "snd (find_best lib t frame k t1) = Inr (Some m)"
  using assms
  by (auto simp: find_best_def split: sum.splits prod.splits if_splits)

theorem find_best_threshold_monotone_witness:
  "snd (find_best (ex_lib True) ex_tmps (ex_frame 100 100) ''LBL_MATCHING'' 0.37)
     = Inr (Some \<lparr>name = ''LBL_MATCHING'', top_left = (7, 9), bottom_right = (37, 29), score = 0.9\<rparr>)"
proof -
  have "snd (find_best (ex_lib True) ex_tmps (ex_frame 100 100) ''LBL_MATCHING'' 0.88)
     = Inr (Some \<lparr>name = ''LBL_MATCHING'', top_left = (7, 9), bottom_right = (37, 29), score = 0.9\<rparr>)"
    by (simp add: find_best_def ex_lib_def ex_tmps_def ex_img_def ex_frame_def cvtColor_def
        tmps_get_def)
  with find_best_threshold_monotone [of "0.37" "0.88"] show ?thesis by simp
qed

subsection \<open>Coordinates of a region scan\<close>

lemma center_translate:
  "center (translate b m) = (fst (center m) + box_left b, snd (center m) + box_top b)"
  by (simp add: center_def translate_def split: prod.splits)

text \<open>C8: a detection returned by \<open>scan_region\<close>, for any region and whatever the float
  operations round to, is the match found in the frame grabbed at the region's box, with
  its top-left corner, its bottom-right corner and its center each moved by the absolute
  offset (left, top) of that box; name and score are kept.\<close>

theorem scan_region_absolute:
  assumes "scan_region fl lib t mi s r k rp thr = Inr (Some m')"
  shows "\<exists>full m. monitor_bbox mi s r = Inr full
     \<and> snd (find_best lib t (grab s (region_box fl full rp)) k thr) = Inr (Some m)
     \<and> top_left m' = (fst (top_left m) + box_left (region_box fl full rp),
                       snd (top_left m) + box_top (region_box fl full rp))
     \<and> bottom_right m' = (fst (bottom_right m) + box_left (region_box fl full rp),
                           snd (bottom_right m) + box_top (region_box fl full rp))
     \<and> center m' = (fst (center m) + box_left (region_box fl full rp),
                     snd (center m) + box_top (region_box fl full rp))
     \<and> name m' = name m \<and> score m' = score m"
  using assms
  by (auto simp: scan_region_def Let_def center_translate split: sum.splits option.splits)
    (simp_all add: translate_def)

theorem scan_region_absolute_witness:
  "scan_region ex_fl (ex_lib True) ex_tmps 0 ex_sct None ''LBL_MATCHING'' (0.5, 0.5, 0.25, 0.25) 0.37
     = Inr (Some \<lparr>name = ''LBL_MATCHING'', top_left = (967, 549), bottom_right = (997, 569),
                   score = 0.9\<rparr>)
   \<and> center \<lparr>name = ''LBL_MATCHING'', top_left = (967, 549), bottom_right = (997, 569),
              score = 0.9\<rparr> = (982, 559)"
proof -
  let ?m' = "\<lparr>name = ''LBL_MATCHING'', top_left = (967, 549), bottom_right = (997, 569),
              score = 0.9\<rparr>"
  let ?full = "\<lparr>box_left = 0, box_top = 0, box_width = 1920, box_height = 1080\<rparr>"
  have run: "scan_region ex_fl (ex_lib True) ex_tmps 0 ex_sct None ''LBL_MATCHING''
               (0.5, 0.5, 0.25, 0.25) 0.37 = Inr (Some ?m')"
    by (simp add: scan_region_def monitor_bbox_def py_index_def ex_sct_def region_box_def
        py_int_def find_best_def cvtColor_def tmps_get_def ex_lib_def ex_tmps_def ex_img_def
        ex_frame_def ex_fl_def translate_def)
  have box: "monitor_bbox 0 ex_sct None = Inr ?full"
    by (simp add: monitor_bbox_def py_index_def ex_sct_def)
  have off: "box_left (region_box ex_fl ?full (0.5, 0.5, 0.25, 0.25)) = 960"
            "box_top (region_box ex_fl ?full (0.5, 0.5, 0.25, 0.25)) = 540"
    by (simp_all add: region_box_def py_int_def ex_fl_def)
  from scan_region_absolute [OF run] box off
  obtain m where "snd (find_best (ex_lib True) ex_tmps
        (grab ex_sct (region_box ex_fl ?full (0.5, 0.5, 0.25, 0.25))) ''LBL_MATCHING'' 0.37)
          = Inr (Some m)"
    and "center ?m' = (fst (center m) + 960, snd (center m) + 540)"
    by auto
  moreover from this(1) have "center m = (22, 19)"
    by (auto simp: find_best_def cvtColor_def tmps_get_def ex_lib_def ex_tmps_def ex_img_def
        ex_frame_def ex_sct_def region_box_def py_int_def ex_fl_def center_def)
  ultimately show ?thesis using run by simp
qed

subsection \<open>Loading the templates\<close>

lemma load_templates_fails_iff:
  "(\<exists>e. load_templates lib ts t = Inl e) \<longleftrightarrow> (\<exists>kp\<in>set ts. imread lib (snd kp) = None)"
proof (induction ts arbitrary: t)
  case Nil
  show ?case by simp
next
  case (Cons a ts)
  obtain k p where a: "a = (k, p)" by (cases a)
  show ?case
  proof (cases "imread lib p")
    case None
    with a show ?thesis by simp
  next
    case (Some img)
    with a show ?thesis by (simp add: Cons.IH)
  qed
qed

lemma load_templates_keeps:
  "load_templates lib ts t = Inr v \<Longrightarrow> k \<notin> fst ` set ts \<Longrightarrow> v k = t k"
  by (induction ts arbitrary: t) (auto split: option.splits)

lemma load_templates_loaded:
  "load_templates lib ts t = Inr v \<Longrightarrow> k \<in> fst ` set ts \<Longrightarrow>
     \<exists>p img. (k, p) \<in> set ts \<and> imread lib p = Some img \<and> v k = Some (img, (cols img, rows img))"
proof (induction ts arbitrary: t)
  case Nil
  then show ?case by simp
next
  case (Cons a ts)
  obtain k' p' where a: "a = (k', p')" by (cases a)
  from Cons.prems(1) a obtain img where
    img: "imread lib p' = Some img" and
    rest: "load_templates lib ts (t(k' \<mapsto> (img, (cols img, rows img)))) = Inr v"
    by (auto split: option.splits)
  show ?case
  proof (cases "k \<in> fst ` set ts")
    case True
    from Cons.IH [OF rest True] show ?thesis by auto
  next
    case False
    with Cons.prems(2) a have "k = k'" by auto
    moreover from load_templates_keeps [OF rest False] this
    have "v k = Some (img, (cols img, rows img))" by simp
    ultimately show ?thesis using img a by auto
  qed
qed

text \<open>C9: \<open>Vision_init\<close> raises exactly when \<^verbatim>\<open>imread\<close> cannot decode one of the declared
  paths; when it succeeds, every declared name is mapped to a decoded image of one of its
  paths together with that image's (width, height), and the lookup \<^verbatim>\<open>self.tmps[name]\<close> of
  a declared name raises nothing; when loading \<open>TEMPLATES\<close> raises, \<open>run\<close> returns that
  error and no loop iteration has run.\<close>

theorem Vision_init_all_or_nothing:
  "((\<exists>e. Vision_init lib ts = Inl e) \<longleftrightarrow> (\<exists>(k, p)\<in>set ts. imread lib p = None))
   \<and> (\<forall>v. Vision_init lib ts = Inr v \<longrightarrow>
        (\<forall>k\<in>fst ` set ts.
           (\<exists>p img. (k, p) \<in> set ts \<and> imread lib p = Some img
              \<and> v k = Some (img, (cols img, rows img)))
           \<and> (\<exists>x. tmps_get v k = Inr x)))
   \<and> (\<forall>e. Vision_init lib TEMPLATES = Inl e \<longrightarrow> run lib wr sched = Inl e)"
proof (intro conjI allI impI ballI)
  show "(\<exists>e. Vision_init lib ts = Inl e) \<longleftrightarrow> (\<exists>(k, p)\<in>set ts. imread lib p = None)"
    unfolding Vision_init_def load_templates_fails_iff by (auto simp: case_prod_beta)
next
  fix v k
  assume v: "Vision_init lib ts = Inr v" and k: "k \<in> fst ` set ts"
  from load_templates_loaded [OF v [unfolded Vision_init_def] k]
  show loaded: "\<exists>p img. (k, p) \<in> set ts \<and> imread lib p = Some img
      \<and> v k = Some (img, (cols img, rows img))" .
  then show "\<exists>x. tmps_get v k = Inr x" by (auto simp: tmps_get_def)
next
  fix e
  assume "Vision_init lib TEMPLATES = Inl e"
  then show "run lib wr sched = Inl e" by (simp add: run_def Bot_init_def)
qed

theorem Vision_init_all_or_nothing_witness:
  "run (ex_lib False) None [([F8], ex_poll [] 0)] = Inl (FileNotFoundError ''assets/f_towering.png'')
   \<and> (\<exists>v img. Vision_init (ex_lib True) TEMPLATES = Inr v
         \<and> v ''HUD_DUNGEON'' = Some (img, (cols img, rows img)))"
proof -
  note fatal = Vision_init_all_or_nothing
    [of "ex_lib False" TEMPLATES None "[([F8], ex_poll [] 0)]", THEN conjunct2, THEN conjunct2,
     rule_format]
  have "Vision_init (ex_lib False) TEMPLATES = Inl (FileNotFoundError ''assets/f_towering.png'')"
    by (simp add: Vision_init_def TEMPLATES_def ex_lib_def)
  then have a: "run (ex_lib False) None [([F8], ex_poll [] 0)]
      = Inl (FileNotFoundError ''assets/f_towering.png'')"
    by (rule fatal)
  note iff = Vision_init_all_or_nothing [of "ex_lib True" TEMPLATES None "[]", THEN conjunct1]
  note loaded = Vision_init_all_or_nothing
    [of "ex_lib True" TEMPLATES None "[]", THEN conjunct2, THEN conjunct1, rule_format,
     THEN conjunct1]
  have "\<not> (\<exists>(k, p)\<in>set TEMPLATES. imread (ex_lib True) p = None)"
    by (simp add: ex_lib_def)
  with iff have "\<not> (\<exists>e. Vision_init (ex_lib True) TEMPLATES = Inl e)" by simp
  then obtain v where v: "Vision_init (ex_lib True) TEMPLATES = Inr v"
    by (cases "Vision_init (ex_lib True) TEMPLATES") auto
  have "''HUD_DUNGEON'' \<in> fst ` set TEMPLATES" by (simp add: TEMPLATES_def)
  from loaded [OF v this] obtain img where "v ''HUD_DUNGEON'' = Some (img, (cols img, rows img))"
    by auto
  with v a show ?thesis by auto
qed

section \<open>Properties of the controller\<close>

subsection \<open>The full reset\<close>

text \<open>What \<open>full_reset\<close> assigns, and what it leaves as it was.\<close>

lemma full_reset_clears:
  "state (full_reset b) = WAIT_F"
  "\<not> hard_clicked (full_reset b)" "\<not> match_clicked (full_reset b)"
  "\<not> matching_seen (full_reset b)"
  "confirm_monitor_start (full_reset b) = 0" "last_confirm_seen (full_reset b) = 0"
  "captain_wait_start (full_reset b) = 0" "match_check_start (full_reset b) = 0"
  "\<not> after_leave_cycle (full_reset b)"
  "dungeon_timer_start (full_reset b) = 0" "\<not> hud_timer_armed (full_reset b)"
  "failsafe_last_try_ts (full_reset b) = 0" "leave_enter_ts (full_reset b) = 0"
  "last_match_retry_ts (full_reset b) = 0"
  "leave_probe_start_ts (full_reset b) = 0" "\<not> leave_probe_done (full_reset b)"
  by (simp_all add: full_reset_def)

lemma full_reset_keeps:
  "post_leave_start (full_reset b) = post_leave_start b"
  "running (full_reset b) = running b" "exit_flag (full_reset b) = exit_flag b"
  "vision (full_reset b) = vision b" "window_rect (full_reset b) = window_rect b"
  by (simp_all add: full_reset_def)

text \<open>C2: the claim lists \<^verbatim>\<open>post_leave_start\<close> among the fields a full reset returns to
  their initial value. \<open>full_reset\<close> has no assignment to it: on a controller in
  \<^verbatim>\<open>POST_LEAVE_CHECK\<close> whose \<^verbatim>\<open>post_leave_start\<close> is 123.0, the reset returns to
  \<^verbatim>\<open>WAIT_F\<close> and the field is still 123.0, where the initial value is 0.0.\<close>

theorem full_reset_stale_post_leave_start:
  "post_leave_start (full_reset ((ex_bot POST_LEAVE_CHECK)\<lparr>post_leave_start := 123\<rparr>)) = 123
   \<and> post_leave_start (ex_bot WAIT_F) = 0
   \<and> state (full_reset ((ex_bot POST_LEAVE_CHECK)\<lparr>post_leave_start := 123\<rparr>)) = WAIT_F"
  by (simp add: full_reset_def ex_bot_def)

subsection \<open>The F-guard\<close>

text \<open>C1, as amended: the guard fires exactly when the controller is neither in
  \<^verbatim>\<open>LEAVE_PARTY\<close> nor in \<^verbatim>\<open>WAIT_F\<close>, the scan for \<^verbatim>\<open>HUD_DUNGEON\<close> at line 352 detects
  nothing, and the scan for \<^verbatim>\<open>F_TOWERING\<close> at line 355 detects the prompt. In a running
  iteration, a guard that fires ends the iteration with the controller fully reset (state
  \<^verbatim>\<open>WAIT_F\<close>); otherwise the iteration goes on to the branch of the current state.\<close>

theorem f_guard_fires_iff:
  "(fst (f_guard p b) \<longleftrightarrow>
      state b \<noteq> LEAVE_PARTY \<and> seen p 352 = None \<and> seen p 355 \<noteq> None \<and> state b \<noteq> WAIT_F)
   \<and> (running b \<longrightarrow>
        (if fst (f_guard p b)
         then loop_iter p b =
                (full_reset b, [Scan_full ''HUD_DUNGEON'', Scan_full ''F_TOWERING'', Sleep 0.15])
              \<and> state (fst (loop_iter p b)) = WAIT_F
         else fst (loop_iter p b) = fst (dispatch p b)))"
  by (auto simp: f_guard_def loop_iter_def Let_def full_reset_def split: prod.splits)

theorem f_guard_fires_iff_witness:
  "fst (f_guard (ex_poll [355] 0) (ex_bot WAIT_HARD))
   \<and> state (fst (loop_iter (ex_poll [355] 0) (ex_bot WAIT_HARD))) = WAIT_F
   \<and> \<not> fst (f_guard (ex_poll [] 0) (ex_bot WAIT_HARD))
   \<and> state (fst (loop_iter (ex_poll [] 0) (ex_bot WAIT_HARD))) = WAIT_MATCH"
proof -
  let ?p = "ex_poll [355] 0" and ?q = "ex_poll [] 0" and ?b = "ex_bot WAIT_HARD"
  have r: "running ?b" by (simp add: ex_bot_def)
  have "state ?b \<noteq> LEAVE_PARTY \<and> seen ?p 352 = None \<and> seen ?p 355 \<noteq> None \<and> state ?b \<noteq> WAIT_F"
    by (simp add: ex_poll_def ex_bot_def)
  with f_guard_fires_iff [of ?p ?b, THEN conjunct1] have f: "fst (f_guard ?p ?b)" by simp
  with f_guard_fires_iff [of ?p ?b, THEN conjunct2] r
  have s: "state (fst (loop_iter ?p ?b)) = WAIT_F" by (simp add: full_reset_def)
  have "seen ?q 355 = None" by (simp add: ex_poll_def)
  with f_guard_fires_iff [of ?q ?b, THEN conjunct1] have g: "\<not> fst (f_guard ?q ?b)" by simp
  with f_guard_fires_iff [of ?q ?b, THEN conjunct2] r
  have "fst (loop_iter ?q ?b) = fst (dispatch ?q ?b)" by simp
  moreover have "state (fst (dispatch ?q ?b)) = WAIT_MATCH"
    by (simp add: ex_poll_def ex_bot_def dispatch_def loop_WAIT_HARD_def)
  ultimately show ?thesis using f s g by simp
qed

text \<open>The claim as stated asks for the HUD to be observed. With the controller in
  \<^verbatim>\<open>WAIT_HARD\<close> and both \<^verbatim>\<open>HUD_DUNGEON\<close> and \<^verbatim>\<open>F_TOWERING\<close> detected, the guard does not
  fire: the iteration runs the \<^verbatim>\<open>WAIT_HARD\<close> branch and ends in \<^verbatim>\<open>WAIT_MATCH\<close>.\<close>

theorem f_guard_hud_counterexample:
  "state (ex_bot WAIT_HARD) \<noteq> WAIT_F \<and> state (ex_bot WAIT_HARD) \<noteq> LEAVE_PARTY
   \<and> seen (ex_poll [352, 355] 0) 352 \<noteq> None \<and> seen (ex_poll [352, 355] 0) 355 \<noteq> None
   \<and> \<not> fst (f_guard (ex_poll [352, 355] 0) (ex_bot WAIT_HARD))
   \<and> state (fst (loop_iter (ex_poll [352, 355] 0) (ex_bot WAIT_HARD))) = WAIT_MATCH"
  by (simp add: ex_poll_def ex_bot_def f_guard_def loop_iter_def dispatch_def loop_WAIT_HARD_def)

subsection \<open>A paused loop\<close>

lemma paused_loop:
  "\<not> running b \<Longrightarrow> \<not> exit_flag b \<Longrightarrow>
     loop (map (Pair []) ps @ rest) b =
       (fst (loop rest b), replicate (length ps) (Sleep 0.05) @ snd (loop rest b))"
  by (induction ps) (simp_all add: loop_iter_def split: prod.splits)

text \<open>C10: while \<^verbatim>\<open>running\<close> is false (and no exit is requested), an iteration only sleeps
  0.05 s and returns the controller state as it was; over any number of such iterations
  the state stays the same and no scan and no input action occurs; and when F8 is then
  pressed, the next iteration is the one the loop would run from the state held at the
  pause, with \<^verbatim>\<open>running\<close> set.\<close>

theorem paused_iteration_idle:
  assumes "\<not> running b" and "\<not> exit_flag b"
  shows "loop_iter p b = (b, [Sleep 0.05])
     \<and> fst (loop (map (Pair []) ps) b) = b
     \<and> (\<forall>e\<in>set (snd (loop (map (Pair []) ps) b)). \<not> is_scan e \<and> \<not> is_input e)
     \<and> fst (loop (map (Pair []) ps @ [([F8], p)]) b) = fst (loop_iter p (b\<lparr>running := True\<rparr>))"
proof (intro conjI)
  from assms show "loop_iter p b = (b, [Sleep 0.05])" by (simp add: loop_iter_def)
  from paused_loop [OF assms, of ps "[]"]
  have l: "loop (map (Pair []) ps) b = (b, replicate (length ps) (Sleep 0.05))" by simp
  then show "fst (loop (map (Pair []) ps) b) = b" by simp
  from l show "\<forall>e\<in>set (snd (loop (map (Pair []) ps) b)). \<not> is_scan e \<and> \<not> is_input e"
    by (simp add: is_scan_def is_input_def)
  from assms have "fst (loop [([F8], p)] b) = fst (loop_iter p (b\<lparr>running := True\<rparr>))"
    by (simp add: on_press_def split: prod.splits)
  with paused_loop [OF assms, of ps "[([F8], p)]"]
  show "fst (loop (map (Pair []) ps @ [([F8], p)]) b) = fst (loop_iter p (b\<lparr>running := True\<rparr>))"
    by simp
qed

theorem paused_iteration_idle_witness:
  "loop_iter (ex_poll [352, 355, 366] 7) ((ex_bot CONFIRM_MONITOR)\<lparr>running := False\<rparr>)
     = ((ex_bot CONFIRM_MONITOR)\<lparr>running := False\<rparr>, [Sleep 0.05])
   \<and> fst (loop [([], ex_poll [366] 1), ([], ex_poll [366] 2)] ((ex_bot WAIT_F)\<lparr>running := False\<rparr>))
       = (ex_bot WAIT_F)\<lparr>running := False\<rparr>
   \<and> state (fst (loop [([], ex_poll [366] 1), ([], ex_poll [366] 2), ([F8], ex_poll [366] 3)]
        ((ex_bot WAIT_F)\<lparr>running := False\<rparr>))) = WAIT_HARD"
proof -
  let ?b = "(ex_bot CONFIRM_MONITOR)\<lparr>running := False\<rparr>"
  let ?c = "(ex_bot WAIT_F)\<lparr>running := False\<rparr>"
  have b: "\<not> running ?b" "\<not> exit_flag ?b" and c: "\<not> running ?c" "\<not> exit_flag ?c"
    by (simp_all add: ex_bot_def)
  note one = paused_iteration_idle [OF b, of "ex_poll [352, 355, 366] 7" "[]", THEN conjunct1]
  note two = paused_iteration_idle [OF c, of "ex_poll [366] 3" "[ex_poll [366] 1, ex_poll [366] 2]"]
  have "state (fst (loop_iter (ex_poll [366] 3) (?c\<lparr>running := True\<rparr>))) = WAIT_HARD"
    by (simp add: loop_iter_def f_guard_def dispatch_def loop_WAIT_F_def ex_bot_def ex_poll_def)
  with one two show ?thesis by simp
qed


subsection \<open>Steps of single branches\<close>

text \<open>An iteration in which the guard does not fire is the branch of the current state.\<close>

lemma loop_iter_no_guard:
  "running b \<Longrightarrow> seen p 352 \<noteq> None \<or> seen p 355 = None \<Longrightarrow>
     fst (loop_iter p b) = fst (dispatch p b)"
  by (auto simp: loop_iter_def f_guard_def Let_def split: prod.splits)

lemma maybe_arm_keeps:
  "state (fst (maybe_arm_hud_timer p b)) = state b"
  "running (fst (maybe_arm_hud_timer p b)) = running b"
  "exit_flag (fst (maybe_arm_hud_timer p b)) = exit_flag b"
  "confirm_monitor_start (fst (maybe_arm_hud_timer p b)) = confirm_monitor_start b"
  "last_confirm_seen (fst (maybe_arm_hud_timer p b)) = last_confirm_seen b"
  by (simp_all add: maybe_arm_hud_timer_def split: option.splits)

lemma monitor_step:
  assumes "state b = CONFIRM_MONITOR" and "seen p 497 = None" and "seen p 505 = None"
  shows "fst (dispatch p b) =
     (let b1 = fst (maybe_arm_hud_timer p b); now = clock p 496 in
      if now - confirm_monitor_start b \<ge> 15 then
        (if now - last_confirm_seen b > 1 then b1\<lparr>state := LINKCLICK_SPAM\<rparr>
         else b1\<lparr>confirm_monitor_start := now\<rparr>)
      else b1)"
  using assms
  by (simp add: dispatch_def loop_CONFIRM_MONITOR_def monitor_reclick_def monitor_tail_def
      Let_def maybe_arm_keeps CONFIRM_MONITOR_DURATION_def CONFIRM_GONE_MARGIN_def
      case_prod_beta)

lemma spam_step:
  assumes "state b = LINKCLICK_SPAM" and "seen p 536 = None" and "seen p 551 = None"
    and "seen p 564 = None"
  shows "state (fst (dispatch p b)) = LINKCLICK_SPAM
     \<and> running (fst (dispatch p b)) = running b
     \<and> exit_flag (fst (dispatch p b)) = exit_flag b"
  using assms
  by (simp add: dispatch_def loop_LINKCLICK_SPAM_def spam_tail_def Let_def maybe_arm_keeps
      case_prod_beta)

lemma calm_ex_poll: "calm (ex_poll [352] t)" "calm (ex_poll [] t)"
  by (simp_all add: calm_def ex_poll_def)

lemma quiet_ex_poll: "quiet (ex_poll [] t)"
  by (simp add: quiet_def ex_poll_def)

subsection \<open>The confirm monitor window\<close>

lemma loop_Cons_fst:
  "\<not> exit_flag b \<Longrightarrow> fst (loop (([], p) # rest) b) = fst (loop rest (fst (loop_iter p b)))"
  by (simp add: case_prod_beta)

lemma monitor_calm_step:
  assumes "running b" and "\<not> exit_flag b" and "calm p"
    and "state b = CONFIRM_MONITOR \<and> last_confirm_seen b = T \<and> confirm_monitor_start b \<le> T + 1
         \<or> state b = LINKCLICK_SPAM"
  shows "running (fst (loop_iter p b)) \<and> \<not> exit_flag (fst (loop_iter p b))
     \<and> (state (fst (loop_iter p b)) = CONFIRM_MONITOR
          \<and> last_confirm_seen (fst (loop_iter p b)) = T
          \<and> confirm_monitor_start (fst (loop_iter p b)) \<le> T + 1
         \<or> state (fst (loop_iter p b)) = LINKCLICK_SPAM)
     \<and> (state b = LINKCLICK_SPAM \<or> clock p 496 \<ge> T + 16
          \<longrightarrow> state (fst (loop_iter p b)) = LINKCLICK_SPAM)"
proof -
  from assms(3) have g: "seen p 352 \<noteq> None \<or> seen p 355 = None" by (simp add: calm_def)
  note it = loop_iter_no_guard [OF assms(1) g]
  from assms(4) show ?thesis
  proof
    assume m: "state b = CONFIRM_MONITOR \<and> last_confirm_seen b = T
        \<and> confirm_monitor_start b \<le> T + 1"
    from assms(3) have "seen p 497 = None" "seen p 505 = None" by (simp_all add: calm_def)
    with m have "fst (dispatch p b) =
       (let b1 = fst (maybe_arm_hud_timer p b); now = clock p 496 in
        if now - confirm_monitor_start b \<ge> 15 then
          (if now - last_confirm_seen b > 1 then b1\<lparr>state := LINKCLICK_SPAM\<rparr>
           else b1\<lparr>confirm_monitor_start := now\<rparr>)
        else b1)"
      by (intro monitor_step) simp_all
    with m assms(1,2) show ?thesis
      unfolding it by (auto simp: Let_def maybe_arm_keeps)
  next
    assume sp: "state b = LINKCLICK_SPAM"
    from assms(3) have "seen p 536 = None" "seen p 551 = None" "seen p 564 = None"
      by (simp_all add: calm_def)
    from spam_step [OF sp this] sp assms(1,2) show ?thesis unfolding it by simp
  qed
qed

lemma monitor_calm_run:
  assumes "\<forall>p\<in>set ps. calm p" and "running b" and "\<not> exit_flag b"
    and "state b = CONFIRM_MONITOR \<and> last_confirm_seen b = T \<and> confirm_monitor_start b \<le> T + 1
         \<or> state b = LINKCLICK_SPAM"
  shows "state (fst (loop (map (Pair []) ps) b)) \<in> {CONFIRM_MONITOR, LINKCLICK_SPAM}
     \<and> (state b = LINKCLICK_SPAM \<or> (\<exists>q\<in>set ps. clock q 496 \<ge> T + 16)
          \<longrightarrow> state (fst (loop (map (Pair []) ps) b)) = LINKCLICK_SPAM)"
  using assms
proof (induction ps arbitrary: b)
  case Nil
  then show ?case by auto
next
  case (Cons p ps)
  let ?b = "fst (loop_iter p b)"
  from Cons.prems have cp: "calm p" and cps: "\<forall>p\<in>set ps. calm p" by simp_all
  note step = monitor_calm_step [OF Cons.prems(2,3) cp Cons.prems(4)]
  from step have r: "running ?b" and e: "\<not> exit_flag ?b"
    and i: "state ?b = CONFIRM_MONITOR \<and> last_confirm_seen ?b = T
        \<and> confirm_monitor_start ?b \<le> T + 1 \<or> state ?b = LINKCLICK_SPAM"
    and f: "state b = LINKCLICK_SPAM \<or> clock p 496 \<ge> T + 16 \<longrightarrow> state ?b = LINKCLICK_SPAM"
    by blast+
  have l: "fst (loop (map (Pair []) (p # ps)) b) = fst (loop (map (Pair []) ps) ?b)"
    using Cons.prems(3) by (simp add: case_prod_beta)
  from Cons.IH [OF cps r e i] f show ?case unfolding l by auto
qed

text \<open>C6, as amended: let the controller run in \<^verbatim>\<open>CONFIRM_MONITOR\<close> with the confirm last
  seen at \<open>T\<close> and the window start not later than \<open>T + 1.0\<close>, and let the polls detect no
  F prompt, no confirm and no victory. Then a poll moves to \<^verbatim>\<open>LINKCLICK_SPAM\<close> exactly when
  its clock is at least 15.0 s past \<^verbatim>\<open>confirm_monitor_start\<close> and more than 1.0 s past \<open>T\<close>;
  a poll at or after \<open>T + 16.0\<close> always does; and after any sequence of such polls of
  which one is at or after \<open>T + 16.0\<close>, the controller is in \<^verbatim>\<open>LINKCLICK_SPAM\<close>.\<close>

theorem confirm_monitor_window:
  assumes "running b" and "\<not> exit_flag b" and "state b = CONFIRM_MONITOR"
    and "last_confirm_seen b = T" and "confirm_monitor_start b \<le> T + 1"
    and "calm p" and "\<forall>q\<in>set ps. calm q"
  shows "(state (fst (loop_iter p b)) = LINKCLICK_SPAM
            \<longleftrightarrow> clock p 496 - confirm_monitor_start b \<ge> 15 \<and> clock p 496 - T > 1)
     \<and> (clock p 496 \<ge> T + 16 \<longrightarrow> state (fst (loop_iter p b)) = LINKCLICK_SPAM)
     \<and> ((\<exists>q\<in>set ps. clock q 496 \<ge> T + 16)
          \<longrightarrow> state (fst (loop (map (Pair []) ps) b)) = LINKCLICK_SPAM)"
proof (intro conjI)
  from assms(6) have g: "seen p 352 \<noteq> None \<or> seen p 355 = None"
    and n: "seen p 497 = None" "seen p 505 = None" by (simp_all add: calm_def)
  from monitor_step [OF assms(3) n] assms(3,4)
  show "state (fst (loop_iter p b)) = LINKCLICK_SPAM
      \<longleftrightarrow> clock p 496 - confirm_monitor_start b \<ge> 15 \<and> clock p 496 - T > 1"
    unfolding loop_iter_no_guard [OF assms(1) g] by (auto simp: Let_def maybe_arm_keeps)
  from monitor_calm_step [OF assms(1,2,6), of T] assms(3,4,5)
  show "clock p 496 \<ge> T + 16 \<longrightarrow> state (fst (loop_iter p b)) = LINKCLICK_SPAM" by blast
  from monitor_calm_run [OF assms(7,1,2), of T] assms(3,4,5)
  show "(\<exists>q\<in>set ps. clock q 496 \<ge> T + 16)
      \<longrightarrow> state (fst (loop (map (Pair []) ps) b)) = LINKCLICK_SPAM" by blast
qed

theorem confirm_monitor_window_witness:
  "state (fst (loop_iter (ex_poll [352] 116)
      ((ex_bot CONFIRM_MONITOR)\<lparr>confirm_monitor_start := 100.5, last_confirm_seen := 100\<rparr>)))
     = LINKCLICK_SPAM
   \<and> state (fst (loop [([], ex_poll [352] 110), ([], ex_poll [] 116.25)]
      ((ex_bot CONFIRM_MONITOR)\<lparr>confirm_monitor_start := 100.5, last_confirm_seen := 100\<rparr>)))
     = LINKCLICK_SPAM"
proof -
  let ?b = "(ex_bot CONFIRM_MONITOR)\<lparr>confirm_monitor_start := 100.5, last_confirm_seen := 100\<rparr>"
  let ?ps = "[ex_poll [352] 110, ex_poll [] 116.25]"
  have b: "running ?b" "\<not> exit_flag ?b" "state ?b = CONFIRM_MONITOR"
    "last_confirm_seen ?b = 100" "confirm_monitor_start ?b \<le> 100 + 1"
    by (simp_all add: ex_bot_def)
  have ps: "\<forall>q\<in>set ?ps. calm q" by (simp add: calm_ex_poll)
  have t: "clock (ex_poll [352] 116) 496 \<ge> 100 + 16" "\<exists>q\<in>set ?ps. clock q 496 \<ge> 100 + 16"
    by (simp_all add: ex_poll_def)
  note w = confirm_monitor_window [OF b calm_ex_poll(1) ps]
  from w t(1) have one: "state (fst (loop_iter (ex_poll [352] 116) ?b)) = LINKCLICK_SPAM"
    by blast
  from w t(2) have two: "state (fst (loop (map (Pair []) ?ps) ?b)) = LINKCLICK_SPAM"
    by blast
  have m: "map (Pair []) ?ps = [([], ex_poll [352] 110), ([], ex_poll [] 116.25)]"
    by simp
  from one two show ?thesis unfolding m by (rule conjI)
qed

text \<open>The claim as stated says the transition does not happen before \<open>T + 16.0\<close>. With
  the window started at \<open>T = 100\<close>, where the confirm was last seen, a poll at 115 finds the
  15.0 s window elapsed and the confirm gone for more than 1.0 s, and moves to
  \<^verbatim>\<open>LINKCLICK_SPAM\<close>.\<close>

theorem confirm_monitor_early_counterexample:
  "last_confirm_seen ((ex_bot CONFIRM_MONITOR)
       \<lparr>confirm_monitor_start := 100, last_confirm_seen := 100\<rparr>) = 100
   \<and> clock (ex_poll [] 115) 496 < 100 + 16
   \<and> state (fst (loop_iter (ex_poll [] 115)
       ((ex_bot CONFIRM_MONITOR)\<lparr>confirm_monitor_start := 100, last_confirm_seen := 100\<rparr>)))
     = LINKCLICK_SPAM"
  by (simp add: ex_bot_def ex_poll_def loop_iter_def f_guard_def dispatch_def
      loop_CONFIRM_MONITOR_def maybe_arm_hud_timer_def monitor_reclick_def monitor_tail_def
      CONFIRM_MONITOR_DURATION_def CONFIRM_GONE_MARGIN_def)

subsection \<open>The timeout of the matching loop\<close>

lemma matching_step_no_retry:
  assumes "state b = CHECK_MATCHING_UNTIL_CONFIRM" and "\<not> matching_seen b"
    and "seen_region p 436 0 = None" and "seen_region p 436 1 = None"
    and "seen p 468 = None"
    and "clock p 431 - last_match_retry_ts b < 3
         \<or> seen_region p 448 0 \<noteq> None \<or> seen_region p 448 1 \<noteq> None \<or> seen p 456 = None"
    and "clock p 431 - match_check_start b > 5"
  shows "state (fst (dispatch p b)) = LEAVE_PARTY
     \<and> leave_enter_ts (fst (dispatch p b)) = clock p 485
     \<and> (\<exists>ev. snd (dispatch p b) = ev @ [Press ''esc'', Sleep 0.2, Press ''i''])"
  using assms
  by (auto simp: dispatch_def loop_CHECK_MATCHING_UNTIL_CONFIRM_def matching_latch_def
      matching_tail_def MATCHING_REGIONS_def MATCH_RETRY_COOLDOWN_def Let_def
      split: option.splits)

text \<open>C7, as amended: let the controller run in \<^verbatim>\<open>CHECK_MATCHING_UNTIL_CONFIRM\<close> with the
  latch unset, in a poll where the guard does not fire, the latch scan sees no
  \<^verbatim>\<open>LBL_MATCHING\<close> in either region, no confirm is detected, and the retry branch does not
  click \<^verbatim>\<open>Match\<close> again (the cooldown of 3.0 s has not elapsed, or \<^verbatim>\<open>LBL_MATCHING\<close> is seen
  by the retry scan, or \<^verbatim>\<open>BTN_MATCH\<close> is not detected). If more than 5.0 s have elapsed
  since \<^verbatim>\<open>match_check_start\<close>, the iteration ends with the key presses esc, i, records
  \<^verbatim>\<open>leave_enter_ts\<close> and moves to \<^verbatim>\<open>LEAVE_PARTY\<close>.\<close>

theorem matching_timeout_to_leave_party:
  assumes "running b" and "state b = CHECK_MATCHING_UNTIL_CONFIRM" and "\<not> matching_seen b"
    and "seen p 352 \<noteq> None \<or> seen p 355 = None"
    and "seen_region p 436 0 = None" and "seen_region p 436 1 = None"
    and "seen p 468 = None"
    and "clock p 431 - last_match_retry_ts b < 3
         \<or> seen_region p 448 0 \<noteq> None \<or> seen_region p 448 1 \<noteq> None \<or> seen p 456 = None"
    and "clock p 431 - match_check_start b > 5"
  shows "state (fst (loop_iter p b)) = LEAVE_PARTY
     \<and> leave_enter_ts (fst (loop_iter p b)) = clock p 485
     \<and> (\<exists>ev. snd (loop_iter p b) = ev @ [Press ''esc'', Sleep 0.2, Press ''i''])"
proof -
  from assms(1,2,4) have "loop_iter p b
      = (fst (dispatch p b), snd (snd (f_guard p b)) @ snd (dispatch p b))"
    by (auto simp: loop_iter_def f_guard_def Let_def case_prod_beta)
  with matching_step_no_retry [OF assms(2,3,5-9)] show ?thesis by auto
qed

theorem matching_timeout_to_leave_party_witness:
  "state (fst (loop_iter (ex_poll [] 6) (ex_bot CHECK_MATCHING_UNTIL_CONFIRM))) = LEAVE_PARTY
   \<and> leave_enter_ts (fst (loop_iter (ex_poll [] 6) (ex_bot CHECK_MATCHING_UNTIL_CONFIRM))) = 6"
proof -
  let ?p = "ex_poll [] 6" and ?b = "ex_bot CHECK_MATCHING_UNTIL_CONFIRM"
  have "running ?b" "state ?b = CHECK_MATCHING_UNTIL_CONFIRM" "\<not> matching_seen ?b"
    "seen ?p 352 \<noteq> None \<or> seen ?p 355 = None"
    "seen_region ?p 436 0 = None" "seen_region ?p 436 1 = None" "seen ?p 468 = None"
    "clock ?p 431 - last_match_retry_ts ?b < 3
         \<or> seen_region ?p 448 0 \<noteq> None \<or> seen_region ?p 448 1 \<noteq> None \<or> seen ?p 456 = None"
    "clock ?p 431 - match_check_start ?b > 5"
    by (simp_all add: ex_bot_def ex_poll_def)
  from matching_timeout_to_leave_party [OF this] show ?thesis by (simp add: ex_poll_def)
qed

text \<open>The claim as stated has no condition on the \<^verbatim>\<open>Match\<close> button. With the latch unset,
  no confirm detected and 6 s elapsed, a poll whose retry scan detects \<^verbatim>\<open>BTN_MATCH\<close> clicks
  it and moves to \<^verbatim>\<open>BECOME_CAPTAIN\<close>; esc is not pressed.\<close>

theorem matching_retry_counterexample:
  "\<not> matching_seen (ex_bot CHECK_MATCHING_UNTIL_CONFIRM)
   \<and> seen (ex_poll [456] 6) 468 = None
   \<and> clock (ex_poll [456] 6) 431 - match_check_start (ex_bot CHECK_MATCHING_UNTIL_CONFIRM) > 5
   \<and> state (fst (loop_iter (ex_poll [456] 6) (ex_bot CHECK_MATCHING_UNTIL_CONFIRM)))
       = BECOME_CAPTAIN
   \<and> \<not> matching_seen (fst (loop_iter (ex_poll [456] 6) (ex_bot CHECK_MATCHING_UNTIL_CONFIRM)))
   \<and> Press ''esc'' \<notin> set (snd (loop_iter (ex_poll [456] 6) (ex_bot CHECK_MATCHING_UNTIL_CONFIRM)))"
  by (simp add: ex_bot_def ex_poll_def loop_iter_def f_guard_def dispatch_def
      loop_CHECK_MATCHING_UNTIL_CONFIRM_def matching_latch_def MATCHING_REGIONS_def
      MATCH_RETRY_COOLDOWN_def click_at_def)

subsection \<open>Which waits are bounded\<close>

lemma quiet_loop_iter:
  "running b \<Longrightarrow> quiet p \<Longrightarrow>
     loop_iter p b = (fst (dispatch p b),
       (if state b = LEAVE_PARTY then [Scan_full ''HUD_DUNGEON'']
        else [Scan_full ''HUD_DUNGEON'', Scan_full ''F_TOWERING'']) @ snd (dispatch p b))"
  by (simp add: loop_iter_def f_guard_def quiet_def case_prod_beta)

text \<open>C3, as amended: in a running iteration that detects nothing,
  \<^verbatim>\<open>BECOME_CAPTAIN\<close> moves to \<^verbatim>\<open>LEAVE_PARTY\<close> once 3.0 s have passed since
  \<^verbatim>\<open>captain_wait_start\<close>; \<^verbatim>\<open>CHECK_MATCHING_UNTIL_CONFIRM\<close> with the latch unset moves to
  \<^verbatim>\<open>LEAVE_PARTY\<close> once more than 5.0 s have passed since \<^verbatim>\<open>match_check_start\<close>;
  \<^verbatim>\<open>CONFIRM_MONITOR\<close> moves to \<^verbatim>\<open>LINKCLICK_SPAM\<close> once 15.0 s have passed since
  \<^verbatim>\<open>confirm_monitor_start\<close> and more than 1.0 s since \<^verbatim>\<open>last_confirm_seen\<close>;
  \<^verbatim>\<open>POST_LEAVE_CHECK\<close> resets to \<^verbatim>\<open>WAIT_F\<close> once more than 8.0 s have passed since
  \<^verbatim>\<open>post_leave_start\<close>. \<^verbatim>\<open>WAIT_F\<close>, \<^verbatim>\<open>WAIT_MATCH\<close> and \<^verbatim>\<open>WAIT_VICTORY_LEAVE\<close> have no timer:
  such an iteration leaves the whole controller state as it was, whatever the clock reads,
  and performs no input action.\<close>

theorem timeouts_by_state:
  assumes "running b" and "quiet p"
  shows "(state b = BECOME_CAPTAIN \<and> clock p 416 - captain_wait_start b \<ge> 3
            \<longrightarrow> state (fst (loop_iter p b)) = LEAVE_PARTY)
     \<and> (state b = CHECK_MATCHING_UNTIL_CONFIRM \<and> \<not> matching_seen b
          \<and> clock p 431 - match_check_start b > 5
            \<longrightarrow> state (fst (loop_iter p b)) = LEAVE_PARTY)
     \<and> (state b = CONFIRM_MONITOR \<and> clock p 496 - confirm_monitor_start b \<ge> 15
          \<and> clock p 496 - last_confirm_seen b > 1
            \<longrightarrow> state (fst (loop_iter p b)) = LINKCLICK_SPAM)
     \<and> (state b = POST_LEAVE_CHECK \<and> clock p 593 - post_leave_start b > 8
            \<longrightarrow> state (fst (loop_iter p b)) = WAIT_F)
     \<and> (state b \<in> {WAIT_F, WAIT_MATCH, WAIT_VICTORY_LEAVE}
            \<longrightarrow> fst (loop_iter p b) = b
                \<and> (\<forall>e\<in>set (snd (loop_iter p b)). \<not> is_input e))"
proof (intro conjI impI)
  note it = quiet_loop_iter [OF assms]
  from assms(2) have q: "\<And>l. seen p l = None" "\<And>l i. seen_region p l i = None"
    by (simp_all add: quiet_def)
  {
    assume "state b = BECOME_CAPTAIN \<and> clock p 416 - captain_wait_start b \<ge> 3"
    then show "state (fst (loop_iter p b)) = LEAVE_PARTY"
      unfolding it by (simp add: dispatch_def loop_BECOME_CAPTAIN_def q CAPTAIN_DECLINE_GRACE_def)
  next
    assume a: "state b = CHECK_MATCHING_UNTIL_CONFIRM \<and> \<not> matching_seen b
        \<and> clock p 431 - match_check_start b > 5"
    with matching_step_no_retry [of b p] q
    show "state (fst (loop_iter p b)) = LEAVE_PARTY" unfolding it by simp
  next
    assume a: "state b = CONFIRM_MONITOR \<and> clock p 496 - confirm_monitor_start b \<ge> 15
        \<and> clock p 496 - last_confirm_seen b > 1"
    with monitor_step [of b p] q
    show "state (fst (loop_iter p b)) = LINKCLICK_SPAM" unfolding it by (simp add: Let_def)
  next
    assume "state b = POST_LEAVE_CHECK \<and> clock p 593 - post_leave_start b > 8"
    then show "state (fst (loop_iter p b)) = WAIT_F"
      unfolding it
      by (simp add: dispatch_def loop_POST_LEAVE_CHECK_def q POST_LEAVE_WINDOW_def
          full_reset_def)
  next
    assume w: "state b \<in> {WAIT_F, WAIT_MATCH, WAIT_VICTORY_LEAVE}"
    then show "fst (loop_iter p b) = b"
      unfolding it
      by (auto simp: dispatch_def loop_WAIT_F_def loop_WAIT_MATCH_def
          loop_WAIT_VICTORY_LEAVE_def q)
    from w show "\<forall>e\<in>set (snd (loop_iter p b)). \<not> is_input e"
      unfolding it
      by (auto simp: dispatch_def loop_WAIT_F_def loop_WAIT_MATCH_def
          loop_WAIT_VICTORY_LEAVE_def q is_input_def split: if_splits)
  }
qed

theorem timeouts_by_state_witness:
  "state (fst (loop_iter (ex_poll [] 3) (ex_bot BECOME_CAPTAIN))) = LEAVE_PARTY
   \<and> state (fst (loop_iter (ex_poll [] 6) (ex_bot CHECK_MATCHING_UNTIL_CONFIRM))) = LEAVE_PARTY
   \<and> state (fst (loop_iter (ex_poll [] 15) (ex_bot CONFIRM_MONITOR))) = LINKCLICK_SPAM
   \<and> state (fst (loop_iter (ex_poll [] 9) (ex_bot POST_LEAVE_CHECK))) = WAIT_F
   \<and> fst (loop_iter (ex_poll [] 1000000) (ex_bot WAIT_F)) = ex_bot WAIT_F
   \<and> fst (loop_iter (ex_poll [] 1000000) (ex_bot WAIT_MATCH)) = ex_bot WAIT_MATCH
   \<and> fst (loop_iter (ex_poll [] 1000000) (ex_bot WAIT_VICTORY_LEAVE)) = ex_bot WAIT_VICTORY_LEAVE"
proof -
  have r: "\<And>s. running (ex_bot s)" by (simp add: ex_bot_def)
  note t = timeouts_by_state [OF r quiet_ex_poll]
  have "state (ex_bot BECOME_CAPTAIN) = BECOME_CAPTAIN
      \<and> clock (ex_poll [] 3) 416 - captain_wait_start (ex_bot BECOME_CAPTAIN) \<ge> 3"
    by (simp add: ex_bot_def ex_poll_def)
  with t [of BECOME_CAPTAIN 3]
  have a: "state (fst (loop_iter (ex_poll [] 3) (ex_bot BECOME_CAPTAIN))) = LEAVE_PARTY"
    by blast
  have "state (ex_bot CHECK_MATCHING_UNTIL_CONFIRM) = CHECK_MATCHING_UNTIL_CONFIRM
      \<and> \<not> matching_seen (ex_bot CHECK_MATCHING_UNTIL_CONFIRM)
      \<and> clock (ex_poll [] 6) 431 - match_check_start (ex_bot CHECK_MATCHING_UNTIL_CONFIRM) > 5"
    by (simp add: ex_bot_def ex_poll_def)
  with t [of CHECK_MATCHING_UNTIL_CONFIRM 6]
  have b: "state (fst (loop_iter (ex_poll [] 6) (ex_bot CHECK_MATCHING_UNTIL_CONFIRM)))
      = LEAVE_PARTY"
    by blast
  have "state (ex_bot CONFIRM_MONITOR) = CONFIRM_MONITOR
      \<and> clock (ex_poll [] 15) 496 - confirm_monitor_start (ex_bot CONFIRM_MONITOR) \<ge> 15
      \<and> clock (ex_poll [] 15) 496 - last_confirm_seen (ex_bot CONFIRM_MONITOR) > 1"
    by (simp add: ex_bot_def ex_poll_def)
  with t [of CONFIRM_MONITOR 15]
  have c: "state (fst (loop_iter (ex_poll [] 15) (ex_bot CONFIRM_MONITOR))) = LINKCLICK_SPAM"
    by blast
  have "state (ex_bot POST_LEAVE_CHECK) = POST_LEAVE_CHECK
      \<and> clock (ex_poll [] 9) 593 - post_leave_start (ex_bot POST_LEAVE_CHECK) > 8"
    by (simp add: ex_bot_def ex_poll_def)
  with t [of POST_LEAVE_CHECK 9]
  have d: "state (fst (loop_iter (ex_poll [] 9) (ex_bot POST_LEAVE_CHECK))) = WAIT_F"
    by blast
  note idle = t [THEN conjunct2, THEN conjunct2, THEN conjunct2, THEN conjunct2, rule_format,
      THEN conjunct1]
  have w: "state (ex_bot WAIT_F) \<in> {WAIT_F, WAIT_MATCH, WAIT_VICTORY_LEAVE}"
    "state (ex_bot WAIT_MATCH) \<in> {WAIT_F, WAIT_MATCH, WAIT_VICTORY_LEAVE}"
    "state (ex_bot WAIT_VICTORY_LEAVE) \<in> {WAIT_F, WAIT_MATCH, WAIT_VICTORY_LEAVE}"
    by (simp_all add: ex_bot_def)
  have e: "fst (loop_iter (ex_poll [] 1000000) (ex_bot WAIT_F)) = ex_bot WAIT_F"
    "fst (loop_iter (ex_poll [] 1000000) (ex_bot WAIT_MATCH)) = ex_bot WAIT_MATCH"
    "fst (loop_iter (ex_poll [] 1000000) (ex_bot WAIT_VICTORY_LEAVE)) = ex_bot WAIT_VICTORY_LEAVE"
    by (rule idle [OF w(1)], rule idle [OF w(2)], rule idle [OF w(3)])
  from a b c d e show ?thesis by (intro conjI)
qed

text \<open>The claim as stated gives \<^verbatim>\<open>WAIT_F\<close>, \<^verbatim>\<open>WAIT_MATCH\<close> and \<^verbatim>\<open>WAIT_VICTORY_LEAVE\<close> a
  bound after which they leave their wait. There is none: whatever the bound, a poll
  later than it that detects nothing leaves each of them in its state.\<close>

lemma idle_wait_poll:
  "state (fst (loop_iter (ex_poll [] t) (ex_bot WAIT_F))) = WAIT_F"
  "state (fst (loop_iter (ex_poll [] t) (ex_bot WAIT_MATCH))) = WAIT_MATCH"
  "state (fst (loop_iter (ex_poll [] t) (ex_bot WAIT_VICTORY_LEAVE))) = WAIT_VICTORY_LEAVE"
  by (simp_all add: ex_bot_def ex_poll_def loop_iter_def f_guard_def dispatch_def
      loop_WAIT_F_def loop_WAIT_MATCH_def loop_WAIT_VICTORY_LEAVE_def)

theorem idle_waits_unbounded_counterexample:
  "\<not> (\<exists>B::real. \<forall>t>B. state (fst (loop_iter (ex_poll [] t) (ex_bot WAIT_F))) \<noteq> WAIT_F)
   \<and> \<not> (\<exists>B::real. \<forall>t>B.
          state (fst (loop_iter (ex_poll [] t) (ex_bot WAIT_MATCH))) \<noteq> WAIT_MATCH)
   \<and> \<not> (\<exists>B::real. \<forall>t>B.
          state (fst (loop_iter (ex_poll [] t) (ex_bot WAIT_VICTORY_LEAVE)))
            \<noteq> WAIT_VICTORY_LEAVE)"
proof (intro conjI notI)
  assume "\<exists>B::real. \<forall>t>B. state (fst (loop_iter (ex_poll [] t) (ex_bot WAIT_F))) \<noteq> WAIT_F"
  then obtain B :: real
    where "\<forall>t>B. state (fst (loop_iter (ex_poll [] t) (ex_bot WAIT_F))) \<noteq> WAIT_F" ..
  moreover have "B + 1 > B" by simp
  ultimately have "state (fst (loop_iter (ex_poll [] (B + 1)) (ex_bot WAIT_F))) \<noteq> WAIT_F"
    by blast
  with idle_wait_poll(1) [of "B + 1"] show False by blast
next
  assume "\<exists>B::real. \<forall>t>B.
      state (fst (loop_iter (ex_poll [] t) (ex_bot WAIT_MATCH))) \<noteq> WAIT_MATCH"
  then obtain B :: real
    where "\<forall>t>B. state (fst (loop_iter (ex_poll [] t) (ex_bot WAIT_MATCH))) \<noteq> WAIT_MATCH" ..
  moreover have "B + 1 > B" by simp
  ultimately have "state (fst (loop_iter (ex_poll [] (B + 1)) (ex_bot WAIT_MATCH))) \<noteq> WAIT_MATCH"
    by blast
  with idle_wait_poll(2) [of "B + 1"] show False by blast
next
  assume "\<exists>B::real. \<forall>t>B.
      state (fst (loop_iter (ex_poll [] t) (ex_bot WAIT_VICTORY_LEAVE))) \<noteq> WAIT_VICTORY_LEAVE"
  then obtain B :: real
    where "\<forall>t>B. state (fst (loop_iter (ex_poll [] t) (ex_bot WAIT_VICTORY_LEAVE)))
        \<noteq> WAIT_VICTORY_LEAVE" ..
  moreover have "B + 1 > B" by simp
  ultimately have "state (fst (loop_iter (ex_poll [] (B + 1)) (ex_bot WAIT_VICTORY_LEAVE)))
      \<noteq> WAIT_VICTORY_LEAVE"
    by blast
  with idle_wait_poll(3) [of "B + 1"] show False by blast
qed

end
